theory Spec2Isabelle
  imports Complex_Main
begin

section \<open>The Go runtime and libraries the handlers call\<close>

text \<open>
  The service is a Go program. Go's \<^verbatim>\<open>int\<close> is 64 bits wide on the platforms it is
  built for; every integer below comes from a parser that only returns values of that
  range or from small constants, and no arithmetic on them can leave the range, so they
  are HOL integers. A \<^verbatim>\<open>time.Duration\<close> is a count of nanoseconds. Strings are byte
  strings.
\<close>

type_synonym Duration = int

definition Second :: Duration where
  "Second = 1000000000"

definition defaultStressDuration :: Duration where
  "defaultStressDuration = 2 * Second"

definition maxStressDuration :: Duration where
  "maxStressDuration = 30 * Second"

subsection \<open>Floating point\<close>

text \<open>
  A \<^verbatim>\<open>float64\<close> is a rational number, and \<open>float64 x\<close> is the \<^verbatim>\<open>float64\<close> nearest to the
  rational \<open>x\<close>, ties going to the even significand, as IEEE 754 prescribes for
  conversions and for the result of every operation: with \<open>e\<close> the binary exponent of
  \<open>x\<close>, the result is the multiple of \<open>2 ^ (e - 52)\<close> nearest to \<open>x\<close>. \<open>bits n\<close> is the
  number of binary digits of \<open>n\<close>. Overflow and subnormal numbers are left out: the
  magnitudes that occur below lie between \<open>10 ^ -9\<close> and \<open>2 ^ 63\<close>.
\<close>

fun bits :: "nat \<Rightarrow> nat" where
  "bits n = (if n = 0 then 0 else Suc (bits (n div 2)))"

declare bits.simps [simp del]

definition exponent :: "rat \<Rightarrow> int" where
  "exponent x =
     (if 1 \<le> \<bar>x\<bar> then int (bits (nat \<lfloor>\<bar>x\<bar>\<rfloor>)) - 1
      else - int (bits (nat (\<lceil>1 / \<bar>x\<bar>\<rceil> - 1))))"

definition pow2 :: "int \<Rightarrow> rat" where
  "pow2 e = (if 0 \<le> e then 2 ^ nat e else 1 / 2 ^ nat (- e))"

definition round_half_even :: "rat \<Rightarrow> int" where
  "round_half_even y =
     (let f = \<lfloor>y\<rfloor>; r = y - of_int f
      in if r < 1 / 2 then f
         else if 1 / 2 < r then f + 1
         else if even f then f else f + 1)"

definition ulp :: "rat \<Rightarrow> rat" where
  "ulp x = pow2 (exponent x - 52)"

definition float64 :: "rat \<Rightarrow> rat" where
  "float64 x = (if x = 0 then 0 else of_int (round_half_even (x / ulp x)) * ulp x)"

text \<open>Go's integer division, which rounds toward zero; the divisor is positive here.\<close>

definition quo :: "int \<Rightarrow> int \<Rightarrow> int" where
  "quo a b = (if 0 \<le> a then a div b else - ((- a) div b))"

text \<open>
  \<^verbatim>\<open>Duration.Seconds\<close>: with \<^verbatim>\<open>sec := d / Second\<close> and \<^verbatim>\<open>nsec := d % Second\<close> it returns
  \<^verbatim>\<open>float64(sec) + float64(nsec)/1e9\<close>. Both conversions, the division and the sum are
  rounded; the constant \<^verbatim>\<open>1e9\<close> is a \<^verbatim>\<open>float64\<close> as it stands.
\<close>

definition Seconds :: "Duration \<Rightarrow> rat" where
  "Seconds d =
     (let sec = quo d Second;
          nsec = d - sec * Second
      in float64 (float64 (of_int sec) + float64 (float64 (of_int nsec) / 1000000000)))"

text \<open>The conversion \<^verbatim>\<open>int(f)\<close> of a \<^verbatim>\<open>float64\<close> drops the fraction.\<close>

definition int_of_float64 :: "rat \<Rightarrow> int" where
  "int_of_float64 x = (if 0 \<le> x then \<lfloor>x\<rfloor> else - \<lfloor>- x\<rfloor>)"

text \<open>
  \<^verbatim>\<open>int(d.Seconds())\<close>, the number of seconds that is validated. Below \<open>2 ^ 24\<close> seconds
  it is the duration cut to whole seconds toward zero; from there on the rounded sum
  can reach the next whole second (see \<open>whole_seconds_exact\<close> and
  \<open>long_duration_rounds_up\<close> below).
\<close>

definition whole_seconds :: "Duration \<Rightarrow> int" where
  "whole_seconds d = int_of_float64 (Seconds d)"

text \<open>\<^verbatim>\<open>strconv.Itoa\<close>: the decimal digits of an integer, with a minus sign when negative.\<close>

fun digits :: "nat \<Rightarrow> string" where
  "digits n =
     (if n < 10 then [''0123456789'' ! n]
      else digits (n div 10) @ [''0123456789'' ! (n mod 10)])"

declare digits.simps [simp del]

definition Itoa :: "int \<Rightarrow> string" where
  "Itoa i = (if i < 0 then CHR ''-'' # digits (nat (- i)) else digits (nat i))"

text \<open>
  \<^verbatim>\<open>strconv.Atoi\<close>: an optional sign, then one or more ASCII digits and nothing else;
  a value outside the 64-bit range is an error as well. \<open>None\<close> stands for any error.
\<close>

definition digit_value :: "char \<Rightarrow> int option" where
  "digit_value c =
     (if 48 \<le> (of_char c :: nat) \<and> (of_char c :: nat) \<le> 57
      then Some (int (of_char c) - 48) else None)"

fun leading_digits :: "string \<Rightarrow> int \<Rightarrow> int option" where
  "leading_digits [] n = Some n"
| "leading_digits (c # cs) n =
     (case digit_value c of
        None \<Rightarrow> None
      | Some v \<Rightarrow> leading_digits cs (n * 10 + v))"

definition Atoi :: "string \<Rightarrow> int option" where
  "Atoi s =
     (case s of
        [] \<Rightarrow> None
      | c # cs \<Rightarrow>
          (let neg = (c = CHR ''-'');
               ds = (if c = CHR ''-'' \<or> c = CHR ''+'' then cs else s)
           in if ds = [] then None
              else (case leading_digits ds 0 of
                      None \<Rightarrow> None
                    | Some n \<Rightarrow>
                        (let v = (if neg then - n else n)
                         in if - (2 ^ 63) \<le> v \<and> v < 2 ^ 63 then Some v else None))))"

subsection \<open>Requests\<close>

text \<open>
  What the handlers read of an \<^verbatim>\<open>http.Request\<close>. \<open>Query\<close> is the decoded query string,
  one pair per parameter in the order of the URL.
\<close>

record Request =
  Method :: string
  Path :: string
  Query :: "(string \<times> string) list"
  RemoteAddr :: string
  UserAgent :: string

text \<open>\<^verbatim>\<open>r.URL.Query().Get(key)\<close>: the first value of the key, the empty string when absent.\<close>

definition Query_Get :: "Request \<Rightarrow> string \<Rightarrow> string" where
  "Query_Get r k = (case map_of (Query r) k of None \<Rightarrow> [] | Some v \<Rightarrow> v)"

subsection \<open>The environment of a run\<close>

text \<open>
  \<^verbatim>\<open>StressResponse\<close> and \<^verbatim>\<open>response.Response\<close>, the two values this program hands to
  \<^verbatim>\<open>SendJSON\<close>. Both Go structs have fields \<^verbatim>\<open>Status\<close> and \<^verbatim>\<open>Message\<close>, so the fields of
  the stress response carry a prefix here.
\<close>

record Response =
  Status :: string
  Message :: string
  Version :: string

record StressResponse =
  StressStatus :: string
  StressMessage :: string
  StressDuration :: string
  StressWorkers :: int

datatype payload = ResponseData Response | StressResponseData StressResponse

text \<open>
  The parts of the Go runtime and standard library that are inputs of the model:
  \<^item> \<open>NumCPU\<close>: \<^verbatim>\<open>runtime.NumCPU()\<close>, at least 1 on every host;
  \<^item> \<open>ParseDuration\<close>: \<^verbatim>\<open>time.ParseDuration\<close>, \<open>None\<close> for an error (it reads fractions
    through floating point, so it is a parameter rather than a definition);
  \<^item> \<open>Marshal\<close>: the JSON encoding of a value, \<open>None\<close> when encoding fails;
  \<^item> \<open>DurationString\<close>: \<^verbatim>\<open>Duration.String\<close>;
  \<^item> \<open>stressTime\<close>: the wall-clock time a load run with the given duration and worker
    count takes.
\<close>

record env =
  NumCPU :: int
  ParseDuration :: "string \<Rightarrow> Duration option"
  Marshal :: "payload \<Rightarrow> string option"
  DurationString :: "Duration \<Rightarrow> string"
  stressTime :: "Duration \<Rightarrow> int \<Rightarrow> Duration"

section \<open>Parameter validation\<close>

record StressRequest =
  DurationSeconds :: int
  Workers :: int

record ValidationError =
  Field :: string
  Problem :: string

text \<open>
  \<^verbatim>\<open>validate.Struct(req)\<close> with the struct tags \<^verbatim>\<open>min=1,max=30\<close> on \<^verbatim>\<open>DurationSeconds\<close>
  and \<^verbatim>\<open>min=1\<close> on \<^verbatim>\<open>Workers\<close>: the validator visits the fields in the order of the
  struct and reports one error for each field that breaks a tag. The result is the
  list of the \<^verbatim>\<open>Field()\<close> names of the errors; the empty list is \<^verbatim>\<open>err == nil\<close>.
\<close>

definition validate_Struct :: "StressRequest \<Rightarrow> string list" where
  "validate_Struct req =
     (if DurationSeconds req < 1 \<or> 30 < DurationSeconds req then [''DurationSeconds''] else []) @
     (if Workers req < 1 then [''Workers''] else [])"

text \<open>
  \<^verbatim>\<open>ValidationError\<close> has the Go fields \<^verbatim>\<open>Field\<close> and \<^verbatim>\<open>Message\<close>; the second is
  \<open>Problem\<close> here, \<open>Message\<close> being a field of \<open>Response\<close>. \<^verbatim>\<open>Error()\<close> returns it.
\<close>

fun formatValidationError :: "string list \<Rightarrow> int \<Rightarrow> ValidationError" where
  "formatValidationError [] maxWorkers =
     \<lparr>Field = ''unknown'', Problem = ''validation failed''\<rparr>"
| "formatValidationError (f # errors) maxWorkers =
     (if f = ''DurationSeconds''
      then \<lparr>Field = ''duration'', Problem = ''duration must be between 1s and 30s''\<rparr>
      else if f = ''Workers''
      then \<lparr>Field = ''workers'',
            Problem = ''workers must be between 1 and '' @ Itoa maxWorkers\<rparr>
      else formatValidationError errors maxWorkers)"

text \<open>
  The two parsing blocks of \<^verbatim>\<open>parseAndValidateStressRequest\<close>: a missing or empty
  parameter and a parameter that does not parse both leave the default in place.
\<close>

definition parsed_durationSeconds :: "env \<Rightarrow> Request \<Rightarrow> int" where
  "parsed_durationSeconds e r =
     (let durationStr = Query_Get r ''duration''
      in if durationStr = [] then whole_seconds defaultStressDuration
         else (case ParseDuration e durationStr of
                 Some d \<Rightarrow> whole_seconds d
               | None \<Rightarrow> whole_seconds defaultStressDuration))"

definition parsed_workers :: "env \<Rightarrow> Request \<Rightarrow> int" where
  "parsed_workers e r =
     (let workersStr = Query_Get r ''workers''
      in if workersStr = [] then NumCPU e
         else (case Atoi workersStr of
                 Some w \<Rightarrow> w
               | None \<Rightarrow> NumCPU e))"

definition parseAndValidateStressRequest :: "env \<Rightarrow> Request \<Rightarrow> ValidationError + StressRequest" where
  "parseAndValidateStressRequest e r =
     (let numCPU = NumCPU e;
          maxWorkers = numCPU * 2;
          req = \<lparr>DurationSeconds = parsed_durationSeconds e r, Workers = parsed_workers e r\<rparr>
      in case validate_Struct req of
           f # errors \<Rightarrow> Inl (formatValidationError (f # errors) maxWorkers)
         | [] \<Rightarrow>
             (let req1 = (if whole_seconds maxStressDuration < DurationSeconds req
                          then req\<lparr>DurationSeconds := whole_seconds maxStressDuration\<rparr>
                          else req);
                  req2 = (if maxWorkers < Workers req1
                          then req1\<lparr>Workers := maxWorkers\<rparr>
                          else req1)
              in Inr req2))"

section \<open>The response writer\<close>

text \<open>
  A handler either returns or panics; a panic carries its payload and leaves the state
  as it was when it was raised, since what a handler wrote before panicking stays
  written.
\<close>

datatype 'a outcome = Done (final: 'a) | Panic (payload: string) (final: 'a)

text \<open>
  The server's side of an \<^verbatim>\<open>http.ResponseWriter\<close>, as far as a handler can tell:
  \<^item> \<open>handlerHeader\<close> is the header map that \<^verbatim>\<open>Header()\<close> returns;
  \<^item> \<open>wroteHeader\<close>, \<open>status\<close> and \<open>sentHeader\<close>: whether the status line has been
    written, with which code, and the headers as they stood at that moment (changes to
    the map afterwards do not reach the client);
  \<^item> \<open>informational\<close>: the 1xx codes sent before the status line;
  \<^item> \<open>body\<close>: the bytes written so far.
  A header has one value here, since the program only calls \<^verbatim>\<open>Set\<close> and \<^verbatim>\<open>Del\<close>.
  Writing to the connection itself does not fail, and the request is not a HEAD request
  (the router only dispatches GET).
\<close>

record http_response =
  handlerHeader :: "string \<rightharpoonup> string"
  wroteHeader :: bool
  status :: int
  sentHeader :: "string \<rightharpoonup> string"
  informational :: "int list"
  body :: string

text \<open>
  The implementations of the interface \<^verbatim>\<open>http.ResponseWriter\<close> that occur in this
  program: the server's own, and the middleware's \<^verbatim>\<open>responseWriter\<close>, a struct that
  embeds another writer and adds \<^verbatim>\<open>statusCode\<close>.
\<close>

datatype ResponseWriter = conn http_response | responseWriter ResponseWriter int

definition newResponseWriter :: "ResponseWriter \<Rightarrow> ResponseWriter" where
  "newResponseWriter w = responseWriter w 200"

text \<open>
  The two fields of a \<^verbatim>\<open>responseWriter\<close>. The middleware reads them only from the
  wrapper it has built itself; the equations for \<open>conn\<close> make the functions total.
\<close>

fun statusCode :: "ResponseWriter \<Rightarrow> int" where
  "statusCode (responseWriter w sc) = sc"
| "statusCode (conn c) = status c"

fun embedded :: "ResponseWriter \<Rightarrow> ResponseWriter" where
  "embedded (responseWriter w sc) = w"
| "embedded (conn c) = conn c"

fun connection :: "ResponseWriter \<Rightarrow> http_response" where
  "connection (conn c) = c"
| "connection (responseWriter w sc) = connection w"

text \<open>
  \<^verbatim>\<open>WriteHeader\<close> of the server's writer: a call after the status line has been written
  is ignored; a code that does not have three digits panics; a 1xx code other than 101
  is sent as an informational header and commits nothing; any other code is committed
  together with the headers of that moment.
\<close>

definition response_WriteHeader :: "int \<Rightarrow> http_response \<Rightarrow> http_response outcome" where
  "response_WriteHeader code c =
     (if wroteHeader c then Done c
      else if code < 100 \<or> 999 < code
      then Panic (''invalid WriteHeader code '' @ Itoa code) c
      else if 100 \<le> code \<and> code \<le> 199 \<and> code \<noteq> 101
      then Done (c\<lparr>informational := informational c @ [code]\<rparr>)
      else Done (c\<lparr>wroteHeader := True, status := code, sentHeader := handlerHeader c\<rparr>))"

text \<open>
  \<^verbatim>\<open>WriteHeader\<close> of the interface. The wrapper stores the code first and then
  delegates, whatever the embedded writer does with it.
\<close>

fun WriteHeader :: "int \<Rightarrow> ResponseWriter \<Rightarrow> ResponseWriter outcome" where
  "WriteHeader code (conn c) =
     (case response_WriteHeader code c of
        Done c' \<Rightarrow> Done (conn c')
      | Panic p c' \<Rightarrow> Panic p (conn c'))"
| "WriteHeader code (responseWriter w sc) =
     (case WriteHeader code w of
        Done w' \<Rightarrow> Done (responseWriter w' code)
      | Panic p w' \<Rightarrow> Panic p (responseWriter w' code))"

definition bodyAllowedForStatus :: "int \<Rightarrow> bool" where
  "bodyAllowedForStatus st =
     (if 100 \<le> st \<and> st \<le> 199 then False
      else if st = 204 then False
      else if st = 304 then False
      else True)"

text \<open>
  \<^verbatim>\<open>Write\<close> of the server's writer: it first commits status 200 when no status line has
  been written, then appends the bytes, or refuses them (the returned flag is \<open>False\<close>)
  when the status does not allow a body.
\<close>

definition response_Write :: "string \<Rightarrow> http_response \<Rightarrow> http_response \<times> bool" where
  "response_Write b c =
     (let c1 = (if wroteHeader c then c
                else c\<lparr>wroteHeader := True, status := 200, sentHeader := handlerHeader c\<rparr>)
      in if bodyAllowedForStatus (status c1) then (c1\<lparr>body := body c1 @ b\<rparr>, True)
         else (c1, False))"

text \<open>
  \<^verbatim>\<open>Write\<close> of the interface. The wrapper does not define it, so a call on the wrapper
  is a call on the embedded writer: an implicit 200 does not pass through the wrapper's
  \<^verbatim>\<open>WriteHeader\<close>.
\<close>

fun Write :: "string \<Rightarrow> ResponseWriter \<Rightarrow> ResponseWriter \<times> bool" where
  "Write b (conn c) = (case response_Write b c of (c', ok) \<Rightarrow> (conn c', ok))"
| "Write b (responseWriter w sc) =
     (case Write b w of (w', ok) \<Rightarrow> (responseWriter w' sc, ok))"

text \<open>\<^verbatim>\<open>w.Header().Set(k, v)\<close> and \<^verbatim>\<open>w.Header().Del(k)\<close>, on the map of the connection.\<close>

fun Header_Set :: "string \<Rightarrow> string \<Rightarrow> ResponseWriter \<Rightarrow> ResponseWriter" where
  "Header_Set k v (conn c) = conn (c\<lparr>handlerHeader := (handlerHeader c)(k \<mapsto> v)\<rparr>)"
| "Header_Set k v (responseWriter w sc) = responseWriter (Header_Set k v w) sc"

fun Header_Del :: "string \<Rightarrow> ResponseWriter \<Rightarrow> ResponseWriter" where
  "Header_Del k (conn c) = conn (c\<lparr>handlerHeader := (handlerHeader c)(k := None)\<rparr>)"
| "Header_Del k (responseWriter w sc) = responseWriter (Header_Del k w) sc"

text \<open>
  \<^verbatim>\<open>http.Error\<close>: replaces the content headers, writes the status code and prints the
  message followed by a newline. (Recent Go releases delete a few more headers of the
  map first, none of which this program sets.)
\<close>

definition http_Error :: "ResponseWriter \<Rightarrow> string \<Rightarrow> int \<Rightarrow> ResponseWriter outcome" where
  "http_Error w error code =
     (let w1 = Header_Del ''Content-Length'' w;
          w2 = Header_Set ''Content-Type'' ''text/plain; charset=utf-8'' w1;
          w3 = Header_Set ''X-Content-Type-Options'' ''nosniff'' w2
      in case WriteHeader code w3 of
           Panic p w4 \<Rightarrow> Panic p w4
         | Done w4 \<Rightarrow> Done (fst (Write (error @ ''\<newline>'') w4)))"

section \<open>Package response\<close>

definition New :: "string \<Rightarrow> string \<Rightarrow> string \<Rightarrow> Response" where
  "New st msg version = \<lparr>Status = st, Message = msg, Version = version\<rparr>"

definition Error :: "string \<Rightarrow> Response" where
  "Error msg = \<lparr>Status = ''error'', Message = msg, Version = []\<rparr>"

definition Success :: "string \<Rightarrow> Response" where
  "Success msg = \<lparr>Status = ''success'', Message = msg, Version = []\<rparr>"

text \<open>
  \<^verbatim>\<open>json.NewEncoder(w).Encode(data)\<close>: the value is encoded in memory first; when that
  fails nothing is written, otherwise the encoding and a newline go to the writer in
  one \<^verbatim>\<open>Write\<close>, whose error is the encoder's. The flag is \<^verbatim>\<open>err == nil\<close>.
\<close>

definition Encode :: "env \<Rightarrow> ResponseWriter \<Rightarrow> payload \<Rightarrow> ResponseWriter \<times> bool" where
  "Encode e w d =
     (case Marshal e d of
        None \<Rightarrow> (w, False)
      | Some b \<Rightarrow> Write (b @ ''\<newline>'') w)"

definition encodeFailedBody :: string where
  \<open>encodeFailedBody = ''{"status":"error","message":"Failed to encode response"}''\<close>

definition SendJSON :: "env \<Rightarrow> ResponseWriter \<Rightarrow> int \<Rightarrow> payload \<Rightarrow> ResponseWriter outcome" where
  "SendJSON e w code d =
     (let w1 = Header_Set ''Content-Type'' ''application/json'' w
      in case WriteHeader code w1 of
           Panic p w2 \<Rightarrow> Panic p w2
         | Done w2 \<Rightarrow>
             (case Encode e w2 d of
                (w3, True) \<Rightarrow> Done w3
              | (w3, False) \<Rightarrow> http_Error w3 encodeFailedBody 500))"

section \<open>Logger, metrics and clock\<close>

text \<open>
  What a request changes outside its response: the events handed to the logger, the
  two Prometheus collectors and the clock.
  \<^item> \<open>logs\<close>: every event a \<^verbatim>\<open>Msg\<close> call completes, in order, with its level. The
    logger prints an event when its level is at least the configured one
    (\<^verbatim>\<open>LOG_LEVEL\<close>, by default \<^verbatim>\<open>info\<close>); that filter is \<open>printed\<close> below.
  \<^item> \<open>httpRequestsTotal\<close>: the counter, by path and method.
  \<^item> \<open>httpRequestDuration\<close>: the observations of the histogram in order, with path and
    method. The Go code observes the duration in floating-point seconds; the model
    keeps the duration itself.
  \<^item> \<open>now\<close>: the reading of the clock. Only a load run moves it: the time the other
    statements take is not part of the model.
  \<^item> \<open>stressRuns\<close>: the calls of \<^verbatim>\<open>runMultiCoreStress\<close> made so far, with their
    arguments.
\<close>

datatype level = DebugLevel | InfoLevel | WarnLevel | ErrorLevel

datatype fieldval =
  FStr string | FInt int | FDur Duration | FErr string | FInterface string

record event =
  lvl :: level
  flds :: "(string \<times> fieldval) list"
  msg :: string

record world =
  logs :: "event list"
  httpRequestsTotal :: "string \<times> string \<Rightarrow> nat"
  httpRequestDuration :: "(string \<times> string \<times> Duration) list"
  now :: Duration
  stressRuns :: "(Duration \<times> int) list"

definition emit :: "level \<Rightarrow> (string \<times> fieldval) list \<Rightarrow> string \<Rightarrow> world \<Rightarrow> world" where
  "emit l fs m s = s\<lparr>logs := logs s @ [\<lparr>lvl = l, flds = fs, msg = m\<rparr>]\<rparr>"

fun level_rank :: "level \<Rightarrow> nat" where
  "level_rank DebugLevel = 0"
| "level_rank InfoLevel = 1"
| "level_rank WarnLevel = 2"
| "level_rank ErrorLevel = 3"

definition printed :: "level \<Rightarrow> event list \<Rightarrow> event list" where
  "printed configured evs = filter (\<lambda>ev. level_rank configured \<le> level_rank (lvl ev)) evs"

definition TrackRequest :: "string \<Rightarrow> string \<Rightarrow> world \<Rightarrow> world" where
  "TrackRequest path method s =
     s\<lparr>httpRequestsTotal :=
         (httpRequestsTotal s)((path, method) := httpRequestsTotal s (path, method) + 1)\<rparr>"

definition ObserveRequestDuration :: "string \<Rightarrow> string \<Rightarrow> Duration \<Rightarrow> world \<Rightarrow> world" where
  "ObserveRequestDuration path method d s =
     s\<lparr>httpRequestDuration := httpRequestDuration s @ [(path, method, d)]\<rparr>"

section \<open>The load generator\<close>

text \<open>
  \<^verbatim>\<open>runMultiCoreStress\<close> starts one goroutine per worker, each spinning until its own
  clock has run for the duration, and waits for all of them. The sequential model keeps
  two things of the call: that it was made, with its arguments, and that the clock has
  moved by the time the environment reports for it when it returns. The debug events of
  the workers are not recorded.
\<close>

definition runMultiCoreStress :: "env \<Rightarrow> Duration \<Rightarrow> int \<Rightarrow> world \<Rightarrow> world" where
  "runMultiCoreStress e duration workers s =
     s\<lparr>now := now s + stressTime e duration workers,
       stressRuns := stressRuns s @ [(duration, workers)]\<rparr>"

section \<open>Handlers\<close>

text \<open>
  A handler receives the request and the response writer, and works on the writer and
  on the state outside it.
\<close>

type_synonym handler =
  "Request \<Rightarrow> ResponseWriter \<Rightarrow> world \<Rightarrow> (ResponseWriter \<times> world) outcome"

definition AppVersion :: string where
  "AppVersion = ''v1.0.0''"

text \<open>Pairs the outcome of a call on the writer with the state outside it.\<close>

fun with_world :: "world \<Rightarrow> ResponseWriter outcome \<Rightarrow> (ResponseWriter \<times> world) outcome" where
  "with_world s (Done w) = Done (w, s)"
| "with_world s (Panic p w) = Panic p (w, s)"

definition HomeHandler :: "env \<Rightarrow> handler" where
  "HomeHandler e r w s =
     (let s1 = TrackRequest (Path r) (Method r) s;
          s2 = emit DebugLevel
                 [(''path'', FStr (Path r)), (''method'', FStr (Method r)),
                  (''remote_addr'', FStr (RemoteAddr r))]
                 ''Processing home request'' s1;
          resp = New ''success'' ''Welcome to the Resilient GitOps Platform!'' AppVersion
      in with_world s2 (SendJSON e w 200 (ResponseData resp)))"

definition HealthHandler :: handler where
  "HealthHandler r w s =
     (let s1 = emit DebugLevel [(''path'', FStr (Path r))] ''Health check requested'' s
      in case WriteHeader 200 w of
           Panic p w1 \<Rightarrow> Panic p (w1, s1)
         | Done w1 \<Rightarrow> Done (fst (Write ''OK'' w1), s1))"

definition StressHandler :: "env \<Rightarrow> handler" where
  "StressHandler e r w s =
     (let s1 = TrackRequest (Path r) (Method r) s
      in case parseAndValidateStressRequest e r of
           Inl err \<Rightarrow>
             (let s2 = emit WarnLevel
                         [(''error'', FErr (Problem err)), (''path'', FStr (Path r))]
                         ''Invalid stress request parameters'' s1
              in with_world s2 (SendJSON e w 400 (ResponseData (Error (Problem err)))))
         | Inr req \<Rightarrow>
             (let duration = DurationSeconds req * Second;
                  s2 = emit WarnLevel
                         [(''path'', FStr (Path r)), (''remote_addr'', FStr (RemoteAddr r)),
                          (''duration'', FDur duration), (''workers'', FInt (Workers req))]
                         ''Multi-core stress test initiated - CPU spike incoming'' s1;
                  start = now s2;
                  s3 = runMultiCoreStress e duration (Workers req) s2;
                  elapsed = now s3 - start;
                  s4 = emit InfoLevel
                         [(''duration'', FDur elapsed), (''workers'', FInt (Workers req))]
                         ''Stress test completed'' s3;
                  resp = \<lparr>StressStatus = ''stress_complete'',
                          StressMessage = ''CPU load simulation finished'',
                          StressDuration = DurationString e elapsed,
                          StressWorkers = Workers req\<rparr>
              in with_world s4 (SendJSON e w 200 (StressResponseData resp))))"

section \<open>Middleware\<close>

text \<open>
  \<^verbatim>\<open>Logging\<close>. The statements after \<^verbatim>\<open>next.ServeHTTP\<close> are not deferred: when the
  handler panics they do not run, and the panic travels on with the writer as the
  handler left it.
\<close>

definition requestLevel :: "int \<Rightarrow> level" where
  "requestLevel sc =
     (if 400 \<le> sc \<and> sc < 500 then WarnLevel
      else if 500 \<le> sc then ErrorLevel
      else InfoLevel)"

definition Logging :: "handler \<Rightarrow> handler" where
  "Logging next r w s =
     (let start = now s;
          wrapped = newResponseWriter w
      in case next r wrapped s of
           Panic p (w', s') \<Rightarrow> Panic p (embedded w', s')
         | Done (w', s') \<Rightarrow>
             (let duration = now s' - start;
                  s1 = ObserveRequestDuration (Path r) (Method r) duration s';
                  s2 = emit (requestLevel (statusCode w'))
                         [(''method'', FStr (Method r)), (''path'', FStr (Path r)),
                          (''status'', FInt (statusCode w')), (''duration'', FDur duration),
                          (''remote_addr'', FStr (RemoteAddr r)),
                          (''user_agent'', FStr (UserAgent r))]
                         ''HTTP request completed'' s1
              in Done (embedded w', s2)))"

definition recoveredBody :: string where
  \<open>recoveredBody = ''{"status":"error","message":"Internal server error"}''\<close>

text \<open>
  \<^verbatim>\<open>Recovery\<close>: the deferred function runs when the inner handler has panicked; it logs
  and answers through \<^verbatim>\<open>http.Error\<close> on the writer the middleware was given.
\<close>

definition Recovery :: "handler \<Rightarrow> handler" where
  "Recovery next r w s =
     (case next r w s of
        Done ws \<Rightarrow> Done ws
      | Panic err (w', s') \<Rightarrow>
          (let s1 = emit ErrorLevel
                      [(''panic'', FInterface err), (''path'', FStr (Path r)),
                       (''method'', FStr (Method r))]
                      ''Recovered from panic'' s'
           in with_world s1 (http_Error w' recoveredBody 500)))"

section \<open>The router\<close>

text \<open>
  \<^verbatim>\<open>setupRouter\<close>: four routes, all for GET, and the two middlewares, which the router
  applies in the order of the \<^verbatim>\<open>Use\<close> calls, the first outermost. The handler of
  \<^verbatim>\<open>/metrics\<close> comes from the Prometheus client library and is a parameter. The result
  is \<open>None\<close> when no route matches; the router then answers by itself, without the
  middleware.
\<close>

definition route :: "env \<Rightarrow> handler \<Rightarrow> Request \<Rightarrow> handler option" where
  "route e metricsHandler r =
     (if Method r = ''GET'' then
        (if Path r = ''/'' then Some (HomeHandler e)
         else if Path r = ''/health'' then Some HealthHandler
         else if Path r = ''/stress'' then Some (StressHandler e)
         else if Path r = ''/metrics'' then Some metricsHandler
         else None)
      else None)"

definition setupRouter :: "env \<Rightarrow> handler \<Rightarrow> Request \<Rightarrow> handler option" where
  "setupRouter e metricsHandler r =
     (case route e metricsHandler r of
        None \<Rightarrow> None
      | Some h \<Rightarrow> Some (Recovery (Logging h)))"

section \<open>Handler bodies as sequences of calls\<close>

text \<open>
  For statements about every handler, the body of a handler is the sequence of calls
  it makes on the writer, the logger and the counter, up to its return or its panic.
\<close>

datatype call =
  SetHeader string string
| DelHeader string
| CallWriteHeader int
| CallWrite string
| Log level "(string \<times> fieldval) list" string
| Track string string
| RaisePanic string

fun run_calls :: "call list \<Rightarrow> ResponseWriter \<Rightarrow> world \<Rightarrow> (ResponseWriter \<times> world) outcome" where
  "run_calls [] w s = Done (w, s)"
| "run_calls (SetHeader k v # cs) w s = run_calls cs (Header_Set k v w) s"
| "run_calls (DelHeader k # cs) w s = run_calls cs (Header_Del k w) s"
| "run_calls (CallWriteHeader code # cs) w s =
     (case WriteHeader code w of
        Panic p w1 \<Rightarrow> Panic p (w1, s)
      | Done w1 \<Rightarrow> run_calls cs w1 s)"
| "run_calls (CallWrite b # cs) w s = run_calls cs (fst (Write b w)) s"
| "run_calls (Log l fs m # cs) w s = run_calls cs w (emit l fs m s)"
| "run_calls (Track path method # cs) w s = run_calls cs w (TrackRequest path method s)"
| "run_calls (RaisePanic p # cs) w s = Panic p (w, s)"

text \<open>The status codes a body passes to \<^verbatim>\<open>WriteHeader\<close>, in order.\<close>

fun status_writes :: "call list \<Rightarrow> int list" where
  "status_writes [] = []"
| "status_writes (CallWriteHeader code # cs) = code # status_writes cs"
| "status_writes (c # cs) = status_writes cs"

section \<open>Example inputs\<close>

text \<open>
  A four-core host for the concrete runs below. \<open>ParseDuration_examples\<close> gives, for the
  duration strings of the examples, the value \<^verbatim>\<open>time.ParseDuration\<close> returns for them,
  and an error for every other string. \<open>Marshal_examples\<close> writes the two response
  structs the way \<^verbatim>\<open>encoding/json\<close> does when no string needs escaping and omits an
  empty version. Durations print as whole seconds, and a load run takes exactly the
  requested time.
\<close>

definition ParseDuration_examples :: "string \<Rightarrow> Duration option" where
  "ParseDuration_examples s =
     (if s = ''45s'' then Some 45000000000
      else if s = ''100s'' then Some 100000000000
      else if s = ''3s'' then Some 3000000000
      else if s = ''0s'' then Some 0
      else if s = ''500ms'' then Some 500000000
      else if s = ''1500ms'' then Some 1500000000
      else if s = ''16777216999999999ns'' then Some 16777216999999999
      else None)"

definition Marshal_examples :: "payload \<Rightarrow> string option" where
  \<open>Marshal_examples d =
     (case d of
        ResponseData resp \<Rightarrow>
          Some (''{"status":"'' @ Status resp @ ''","message":"'' @ Message resp @
                (if Version resp = [] then [] else ''","version":"'' @ Version resp) @ ''"}'')
      | StressResponseData resp \<Rightarrow>
          Some (''{"status":"'' @ StressStatus resp @ ''","message":"'' @ StressMessage resp @
                ''","duration":"'' @ StressDuration resp @ ''","workers":'' @
                Itoa (StressWorkers resp) @ ''}''))\<close>

definition example_env :: env where
  "example_env =
     \<lparr>NumCPU = 4, ParseDuration = ParseDuration_examples, Marshal = Marshal_examples,
      DurationString = (\<lambda>d. Itoa (d div Second) @ ''s''),
      stressTime = (\<lambda>d n. d)\<rparr>"

definition stress_request :: "(string \<times> string) list \<Rightarrow> Request" where
  "stress_request q =
     \<lparr>Method = ''GET'', Path = ''/stress'', Query = q,
      RemoteAddr = ''10.0.0.7:51234'', UserAgent = ''k6''\<rparr>"

text \<open>A response nothing has been written to, and a process that has served nothing yet.\<close>

definition new_response :: http_response where
  "new_response =
     \<lparr>handlerHeader = Map.empty, wroteHeader = False, status = 0,
      sentHeader = Map.empty, informational = [], body = []\<rparr>"

definition idle :: world where
  "idle = \<lparr>logs = [], httpRequestsTotal = (\<lambda>_. 0), httpRequestDuration = [], now = 0,
           stressRuns = []\<rparr>"

definition health_request :: Request where
  "health_request =
     \<lparr>Method = ''GET'', Path = ''/health'', Query = [],
      RemoteAddr = ''10.0.0.1:40000'', UserAgent = ''kube-probe/1.29''\<rparr>"

text \<open>A request for the home page, and an environment in which JSON encoding always fails.\<close>

definition probe :: Request where
  "probe =
     \<lparr>Method = ''GET'', Path = ''/'', Query = [],
      RemoteAddr = ''10.0.0.9:40112'', UserAgent = ''curl/8.5.0''\<rparr>"

definition failing_env :: env where
  "failing_env = example_env\<lparr>Marshal := (\<lambda>d. None)\<rparr>"

section \<open>Facts about the conversion to whole seconds\<close>

lemma bits_bounds: "0 < n \<Longrightarrow> 2 ^ (bits n - 1) \<le> n \<and> n < 2 ^ bits n"
proof (induction n rule: bits.induct)
  case (1 n)
  show ?case
  proof (cases "n div 2 = 0")
    case True
    with 1(2) have "n = 1" by (simp add: div_eq_0_iff) 
    then show ?thesis by (simp add: bits.simps)
  next
    case False
    then have pos: "0 < n div 2" by simp
    from 1(1) [OF _ pos] 1(2) have ih: "2 ^ (bits (n div 2) - 1) \<le> n div 2" "n div 2 < 2 ^ bits (n div 2)"
      by simp_all
    have b: "bits n = Suc (bits (n div 2))" using 1(2) by (simp add: bits.simps)
    have bpos: "0 < bits (n div 2)" using pos by (simp add: bits.simps)
    then have "(2::nat) ^ (bits n - 1) = 2 * 2 ^ (bits (n div 2) - 1)"
      using b by (cases "bits (n div 2)") simp_all
    moreover have "2 * (n div 2) \<le> n" by simp
    ultimately have lo: "2 ^ (bits n - 1) \<le> n" using ih(1) by linarith
    have "n < 2 * (n div 2) + 2" by presburger
    then have hi: "n < 2 ^ bits n" using ih(2) b by simp
    from lo hi show ?thesis by simp
  qed
qed

lemma bits_le: "n < 2 ^ k \<Longrightarrow> bits n \<le> k"
proof (rule ccontr)
  assume lt: "n < 2 ^ k" and "\<not> bits n \<le> k"
  then have k: "k \<le> bits n - 1" by simp
  then have "0 < n" using \<open>\<not> bits n \<le> k\<close> by (cases "n = 0") (simp_all add: bits.simps)
  from bits_bounds [OF this] have a: "2 ^ (bits n - 1) \<le> n" by simp
  have b: "(2::nat) ^ k \<le> 2 ^ (bits n - 1)" using k by (simp add: power_increasing)
  from b a have "2 ^ k \<le> n" by (rule le_trans)
  with lt show False by simp
qed


lemma pow2_pos [simp]: "0 < pow2 e"
  by (simp add: pow2_def)

lemma pow2_mono: "e \<le> e' \<Longrightarrow> pow2 e \<le> pow2 e'"
proof -
  assume le: "e \<le> e'"
  have eq: "pow2 e' = pow2 e * 2 ^ nat (e' - e)"
  proof -
    consider "0 \<le> e" | "e < 0" "0 \<le> e'" | "e' < 0" using le by linarith
    then show ?thesis
    proof cases
      case 1
      then have "nat e' = nat e + nat (e' - e)" using le by simp
      then show ?thesis using 1 le by (simp add: pow2_def power_add)
    next
      case 2
      then have "nat (e' - e) = nat e' + nat (- e)" by simp
      then show ?thesis using 2 by (simp add: pow2_def power_add)
    next
      case 3
      then have "nat (- e) = nat (- e') + nat (e' - e)" using le by simp
      then show ?thesis using 3 le by (simp add: pow2_def power_add)
    qed
  qed
  have "(1::rat) \<le> 2 ^ nat (e' - e)" by simp
  then have "pow2 e * 1 \<le> pow2 e * 2 ^ nat (e' - e)"
    by (intro mult_left_mono) (simp_all add: less_imp_le)
  then show ?thesis using eq by simp
qed

lemma exponent_below_one: "x \<noteq> 0 \<Longrightarrow> \<bar>x\<bar> < 1 \<Longrightarrow> exponent x \<le> - 1"
proof -
  assume nz: "x \<noteq> 0" and lt: "\<bar>x\<bar> < 1"
  have "1 < 1 / \<bar>x\<bar>" using nz lt by simp
  then have "2 \<le> \<lceil>1 / \<bar>x\<bar>\<rceil>" by linarith
  then have "0 < nat (\<lceil>1 / \<bar>x\<bar>\<rceil> - 1)" by simp
  then have "0 < bits (nat (\<lceil>1 / \<bar>x\<bar>\<rceil> - 1))" by (simp add: bits.simps)
  then show ?thesis using lt by (simp add: exponent_def)
qed

lemma exponent_below_power:
  assumes "x \<noteq> 0" and "\<bar>x\<bar> < 2 ^ Suc k"
  shows "exponent x \<le> int k"
proof (cases "1 \<le> \<bar>x\<bar>")
  case True
  have "\<lfloor>\<bar>x\<bar>\<rfloor> < 2 ^ Suc k" using assms(2) by (simp add: floor_less_iff)
  then have "nat \<lfloor>\<bar>x\<bar>\<rfloor> < 2 ^ Suc k"
    by (metis nat_less_iff nat_power_eq of_nat_numeral zero_le_numeral nat_numeral of_nat_less_iff
        of_nat_power zero_le_floor abs_ge_zero)
  then have "bits (nat \<lfloor>\<bar>x\<bar>\<rfloor>) \<le> Suc k" by (rule bits_le)
  then show ?thesis using True by (simp add: exponent_def)
next
  case False
  then have "exponent x \<le> - 1" using assms(1) by (intro exponent_below_one) simp_all
  then show ?thesis by simp
qed

lemma round_half_even_ge: "of_int N \<le> y \<Longrightarrow> N \<le> round_half_even y"
proof -
  assume "of_int N \<le> y"
  then have "N \<le> \<lfloor>y\<rfloor>" by (simp add: le_floor_iff)
  then show ?thesis by (simp add: round_half_even_def Let_def)
qed

lemma round_half_even_le: "y \<le> of_int N \<Longrightarrow> round_half_even y \<le> N"
proof (cases "y = of_int N")
  case True
  then show ?thesis by (simp add: round_half_even_def Let_def)
next
  case False
  assume "y \<le> of_int N"
  with False have "y < of_int N" by simp
  then have "\<lfloor>y\<rfloor> < N" by (simp add: floor_less_iff)
  then show ?thesis by (simp add: round_half_even_def Let_def)
qed

lemma round_half_even_lt: "y < of_int N - 1 / 2 \<Longrightarrow> round_half_even y < N"
proof -
  assume a: "y < of_int N - 1 / 2"
  then have "y < of_int N" by simp
  then have f: "\<lfloor>y\<rfloor> < N" by (simp add: floor_less_iff)
  show ?thesis
  proof (cases "\<lfloor>y\<rfloor> = N - 1")
    case True
    then have "y - of_int \<lfloor>y\<rfloor> < 1 / 2" using a by simp
    then show ?thesis using f by (simp add: round_half_even_def Let_def)
  next
    case False
    then have "\<lfloor>y\<rfloor> + 1 < N" using f by simp
    then show ?thesis by (simp add: round_half_even_def Let_def)
  qed
qed

lemma round_half_even_gt: "of_int N + 1 / 2 < y \<Longrightarrow> N < round_half_even y"
proof -
  assume a: "of_int N + 1 / 2 < y"
  then have "of_int N \<le> y" by simp
  then have f: "N \<le> \<lfloor>y\<rfloor>" by (simp add: le_floor_iff)
  show ?thesis
  proof (cases "\<lfloor>y\<rfloor> = N")
    case True
    then have "1 / 2 < y - of_int \<lfloor>y\<rfloor>" using a by simp
    then show ?thesis using True by (simp add: round_half_even_def Let_def)
  next
    case False
    then have "N < \<lfloor>y\<rfloor>" using f by simp
    then show ?thesis by (simp add: round_half_even_def Let_def)
  qed
qed

lemma round_half_even_error: "\<bar>of_int (round_half_even y) - y\<bar> \<le> 1 / 2"
proof -
  define r where "r = y - of_int \<lfloor>y\<rfloor>"
  have r: "0 \<le> r" "r < 1" unfolding r_def by linarith+
  have y: "y = of_int \<lfloor>y\<rfloor> + r" by (simp add: r_def)
  consider "r < 1 / 2" | "1 / 2 < r" | "r = 1 / 2" by linarith
  then show ?thesis
  proof cases
    case 1
    then have "round_half_even y = \<lfloor>y\<rfloor>"
      by (simp add: round_half_even_def Let_def r_def)
    then have "of_int (round_half_even y) - y = - r" by (simp add: r_def)
    then show ?thesis using r 1 by simp
  next
    case 2
    then have "round_half_even y = \<lfloor>y\<rfloor> + 1"
      by (simp add: round_half_even_def Let_def r_def)
    then have "of_int (round_half_even y) - y = 1 - r" by (simp add: r_def)
    then show ?thesis using r 2 by simp
  next
    case 3
    then have "round_half_even y = \<lfloor>y\<rfloor> \<or> round_half_even y = \<lfloor>y\<rfloor> + 1"
      by (simp add: round_half_even_def Let_def r_def)
    then have "of_int (round_half_even y) - y = - r \<or> of_int (round_half_even y) - y = 1 - r"
      by (auto simp: r_def)
    then show ?thesis using 3 by auto
  qed
qed

lemma ulp_pos [simp]: "0 < ulp x"
  by (simp add: ulp_def)

lemma ulp_nonzero [simp]: "ulp x \<noteq> 0"
  by (metis less_irrefl ulp_pos)

text \<open>Below 2^53 every whole number is a multiple of the unit in the last place.\<close>

lemma ulp_divides_int:
  assumes "x \<noteq> 0" and "\<bar>x\<bar> < 2 ^ 53"
  shows "\<exists>M. of_int K = of_int M * ulp x"
proof -
  have "exponent x \<le> 52" using exponent_below_power [OF assms(1), of 52] assms(2) by simp
  then have u: "ulp x = 1 / 2 ^ nat (52 - exponent x)"
    by (auto simp: ulp_def pow2_def)
  have "(of_int K :: rat) = of_int (K * 2 ^ nat (52 - exponent x)) * ulp x"
    by (simp add: u)
  then show ?thesis by blast
qed

lemma float64_ge:
  assumes "of_int K \<le> x" and "\<bar>x\<bar> < 2 ^ 53"
  shows "of_int K \<le> float64 x"
proof (cases "x = 0")
  case True
  then show ?thesis using assms(1) by (simp add: float64_def)
next
  case False
  from ulp_divides_int [OF False assms(2), of K]
  obtain M where M: "(of_int K :: rat) = of_int M * ulp x" by blast
  have "of_int M \<le> x / ulp x" using assms(1) M by (simp add: pos_le_divide_eq)
  then have "M \<le> round_half_even (x / ulp x)" by (rule round_half_even_ge)
  then have "(of_int M :: rat) * ulp x \<le> of_int (round_half_even (x / ulp x)) * ulp x"
    by (intro mult_right_mono) (simp_all add: less_imp_le)
  then show ?thesis using False M by (simp add: float64_def)
qed

lemma float64_le:
  assumes "x \<le> of_int K" and "\<bar>x\<bar> < 2 ^ 53"
  shows "float64 x \<le> of_int K"
proof (cases "x = 0")
  case True
  then show ?thesis using assms(1) by (simp add: float64_def)
next
  case False
  from ulp_divides_int [OF False assms(2), of K]
  obtain M where M: "(of_int K :: rat) = of_int M * ulp x" by blast
  have "x / ulp x \<le> of_int M" using assms(1) M by (simp add: pos_divide_le_eq)
  then have "round_half_even (x / ulp x) \<le> M" by (rule round_half_even_le)
  then have "(of_int (round_half_even (x / ulp x)) :: rat) * ulp x \<le> of_int M * ulp x"
    by (intro mult_right_mono) (simp_all add: less_imp_le)
  then show ?thesis using False M by (simp add: float64_def)
qed

lemma float64_of_int: "\<bar>of_int K :: rat\<bar> < 2 ^ 53 \<Longrightarrow> float64 (of_int K) = of_int K"
  using float64_ge [of K "of_int K"] float64_le [of "of_int K" K] by simp

lemma float64_lt:
  assumes "x < of_int K - ulp x / 2" and "\<bar>x\<bar> < 2 ^ 53" and "x \<noteq> 0"
  shows "float64 x < of_int K"
proof -
  from ulp_divides_int [OF assms(3,2), of K]
  obtain M where M: "(of_int K :: rat) = of_int M * ulp x" by blast
  have "x / ulp x < of_int M - 1 / 2"
  proof -
    have "x < (of_int M - 1 / 2) * ulp x" using assms(1) M by (simp add: algebra_simps)
    then show ?thesis by (simp add: pos_divide_less_eq)
  qed
  then have "round_half_even (x / ulp x) < M" by (rule round_half_even_lt)
  then have "(of_int (round_half_even (x / ulp x)) :: rat) * ulp x < of_int M * ulp x"
    by (intro mult_strict_right_mono) simp_all
  then show ?thesis using assms(3) M by (simp add: float64_def)
qed

lemma float64_gt:
  assumes "of_int K + ulp x / 2 < x" and "\<bar>x\<bar> < 2 ^ 53" and "x \<noteq> 0"
  shows "of_int K < float64 x"
proof -
  from ulp_divides_int [OF assms(3,2), of K]
  obtain M where M: "(of_int K :: rat) = of_int M * ulp x" by blast
  have "of_int M + 1 / 2 < x / ulp x"
  proof -
    have "(of_int M + 1 / 2) * ulp x < x" using assms(1) M by (simp add: algebra_simps)
    then show ?thesis by (simp add: pos_less_divide_eq)
  qed
  then have "M < round_half_even (x / ulp x)" by (rule round_half_even_gt)
  then have "(of_int M :: rat) * ulp x < of_int (round_half_even (x / ulp x)) * ulp x"
    by (intro mult_strict_right_mono) simp_all
  then show ?thesis using assms(3) M by (simp add: float64_def)
qed

lemma float64_error: "\<bar>float64 x - x\<bar> \<le> ulp x / 2"
proof (cases "x = 0")
  case True
  then show ?thesis by (simp add: float64_def less_imp_le)
next
  case False
  have "\<bar>of_int (round_half_even (x / ulp x)) - x / ulp x\<bar> \<le> 1 / 2"
    by (rule round_half_even_error)
  then have "\<bar>of_int (round_half_even (x / ulp x)) - x / ulp x\<bar> * ulp x \<le> 1 / 2 * ulp x"
    by (intro mult_right_mono) (simp_all add: less_imp_le)
  moreover have "\<bar>of_int (round_half_even (x / ulp x)) - x / ulp x\<bar> * ulp x =
      \<bar>float64 x - x\<bar>"
  proof -
    have "\<bar>of_int (round_half_even (x / ulp x)) - x / ulp x\<bar> * ulp x =
        \<bar>(of_int (round_half_even (x / ulp x)) - x / ulp x) * ulp x\<bar>"
      by (simp add: abs_mult abs_of_pos)
    also have "(of_int (round_half_even (x / ulp x)) - x / ulp x) * ulp x = float64 x - x"
      using False by (simp add: float64_def algebra_simps)
    finally show ?thesis .
  qed
  ultimately show ?thesis by simp
qed

lemma ulp_small:
  assumes "x \<noteq> 0" and "\<bar>x\<bar> < 2 ^ Suc k"
  shows "ulp x \<le> pow2 (int k - 52)"
  unfolding ulp_def using exponent_below_power [OF assms] by (intro pow2_mono) simp

lemma ulp_below_one: "x \<noteq> 0 \<Longrightarrow> \<bar>x\<bar> < 1 \<Longrightarrow> ulp x \<le> pow2 (- 53)"
  unfolding ulp_def using exponent_below_one [of x] by (intro pow2_mono) simp

lemma quotient_bounds:
  fixes S :: int
  assumes "0 < S" and "0 \<le> a"
  shows "a div S * S \<le> a \<and> a < (a div S + 1) * S \<and> 0 \<le> a div S"
proof -
  have eq: "a = a div S * S + a mod S" by simp
  have lo: "0 \<le> a mod S" and hi: "a mod S < S" using assms by simp_all
  have "a div S * S \<le> a" using eq lo by linarith
  moreover have "(a div S + 1) * S = a div S * S + S" by (simp add: algebra_simps)
  then have "a < (a div S + 1) * S" using eq hi by linarith
  moreover have "0 \<le> a div S" using assms by (simp add: pos_imp_zdiv_nonneg_iff)
  ultimately show ?thesis by simp
qed

text \<open>The fraction of a second, as the division leaves it.\<close>

lemma fraction_bounds:
  assumes "0 \<le> n" and "n < 1000000000"
  shows "0 \<le> float64 (of_int n / 1000000000) \<and>
         float64 (of_int n / 1000000000) \<le> 999999999 / 1000000000 + 1 / 2 ^ 54"
proof -
  define x :: rat where "x = of_int n / 1000000000"
  have x0: "0 \<le> x" using assms(1) by (simp add: x_def)
  have "of_int n \<le> (999999999 :: rat)" using assms(2) by linarith
  then have x1: "x \<le> 999999999 / 1000000000" by (simp add: x_def)
  then have xs: "\<bar>x\<bar> < 1" using x0 by simp
  then have xb: "\<bar>x\<bar> < 2 ^ 53" by (rule less_trans) simp
  have lo: "0 \<le> float64 x" using float64_ge [of 0 x] x0 xb by simp
  have hi: "float64 x \<le> 999999999 / 1000000000 + 1 / 2 ^ 54"
  proof (cases "x = 0")
    case True
    then show ?thesis by (simp add: float64_def)
  next
    case False
    have "ulp x \<le> pow2 (- 53)" using False xs by (rule ulp_below_one)
    then have u: "ulp x / 2 \<le> 1 / 2 ^ 54" by (simp add: pow2_def)
    have "float64 x - x \<le> ulp x / 2" using float64_error [of x] by linarith
    then show ?thesis using u x1 by linarith
  qed
  from lo hi show ?thesis by (simp add: x_def)
qed

lemma sum_rounds_inside:
  assumes "0 \<le> K" and "K < 2 ^ 24"
    and "0 \<le> q" and "q \<le> 999999999 / 1000000000 + 1 / 2 ^ 54"
  shows "of_int K \<le> float64 (of_int K + q) \<and> float64 (of_int K + q) < of_int K + 1"
proof -
  define y :: rat where "y = of_int K + q"
  have k: "(of_int K :: rat) + 1 \<le> 2 ^ 24"
  proof -
    have "K + 1 \<le> 2 ^ 24" using assms(2) by simp
    then have "(of_int (K + 1) :: rat) \<le> of_int (2 ^ 24)" by (simp only: of_int_le_iff)
    then show ?thesis by simp
  qed
  have y0: "of_int K \<le> y" using assms(3) by (simp add: y_def)
  have y1: "y \<le> of_int K + (999999999 / 1000000000 + 1 / 2 ^ 54)"
    using assms(4) by (simp add: y_def)
  have "(999999999 / 1000000000 + 1 / 2 ^ 54 :: rat) < 1 - 1 / 2 ^ 30" by simp
  with y1 have y2: "y < of_int K + 1 - 1 / 2 ^ 30" by linarith
  have "(0 :: rat) \<le> of_int K" using assms(1) by simp
  then have ynn: "0 \<le> y" using y0 by linarith
  have eps: "(0 :: rat) < 1 / 2 ^ 30" by simp
  have "y < 2 ^ 24" using y2 k eps by linarith
  then have ys: "\<bar>y\<bar> < 2 ^ Suc 23" using ynn by simp
  then have yb: "\<bar>y\<bar> < 2 ^ 53" by (rule less_trans) simp
  have lo: "of_int K \<le> float64 y" using y0 yb by (rule float64_ge)
  have hi: "float64 y < of_int K + 1"
  proof (cases "y = 0")
    case True
    then have "K = 0" using y0 assms(1) by simp
    then show ?thesis using True by (simp add: float64_def)
  next
    case False
    have "ulp y \<le> pow2 (int 23 - 52)" using False ys by (rule ulp_small)
    then have "ulp y / 2 \<le> 1 / 2 ^ 30" by (simp add: pow2_def)
    then have "y < of_int (K + 1) - ulp y / 2" using y2 by simp
    then have "float64 y < of_int (K + 1)" using yb False by (rule float64_lt)
    then show ?thesis by simp
  qed
  from lo hi show ?thesis by (simp add: y_def)
qed

lemma Second_pos: "0 < Second"
  by (simp add: Second_def)

lemma Seconds_nonneg_exact:
  assumes "0 \<le> a" and "a < 2 ^ 24 * Second"
  shows "of_int (a div Second) \<le> Seconds a \<and> Seconds a < of_int (a div Second) + 1"
proof -
  define K where "K = a div Second"
  define n where "n = a - K * Second"
  from quotient_bounds [OF Second_pos assms(1)]
  have kb: "K * Second \<le> a" "a < (K + 1) * Second" "0 \<le> K" by (simp_all add: K_def)
  have n0: "0 \<le> n" using kb(1) by (simp add: n_def)
  have n1: "n < 1000000000" using kb(2) by (simp add: n_def Second_def algebra_simps)
  have k24: "K < 2 ^ 24"
  proof (rule ccontr)
    assume "\<not> K < 2 ^ 24"
    then have "2 ^ 24 \<le> K" by simp
    then have "2 ^ 24 * Second \<le> K * Second"
      using Second_pos by (intro mult_right_mono) simp_all
    then show False using kb(1) assms(2) by linarith
  qed
  have "\<bar>of_int K :: rat\<bar> < 2 ^ 53"
  proof -
    have "K < 2 ^ 53" using k24 by (rule less_trans) simp
    then have "(of_int K :: rat) < of_int (2 ^ 53)" by (simp only: of_int_less_iff)
    then show ?thesis using kb(3) by simp
  qed
  then have fk: "float64 (of_int K) = of_int K" by (rule float64_of_int)
  have "\<bar>of_int n :: rat\<bar> < 2 ^ 53"
  proof -
    have "n < 2 ^ 53" using n1 by (rule less_trans) simp
    then have "(of_int n :: rat) < of_int (2 ^ 53)" by (simp only: of_int_less_iff)
    then show ?thesis using n0 by simp
  qed
  then have fn: "float64 (of_int n) = of_int n" by (rule float64_of_int)
  have q: "quo a Second = K" using assms(1) by (simp add: quo_def K_def)
  have "Seconds a =
      float64 (float64 (of_int K) + float64 (float64 (of_int n) / 1000000000))"
    unfolding Seconds_def Let_def q n_def ..
  then have s: "Seconds a = float64 (of_int K + float64 (of_int n / 1000000000))"
    by (simp only: fk fn)
  from fraction_bounds [OF n0 n1]
  have "0 \<le> float64 (of_int n / 1000000000)"
    "float64 (of_int n / 1000000000) \<le> 999999999 / 1000000000 + 1 / 2 ^ 54"
    by simp_all
  from sum_rounds_inside [OF kb(3) k24 this] s show ?thesis
    by (simp add: K_def)
qed

lemma float64_minus: "float64 (- x) = - float64 x"
proof -
  have r: "round_half_even (- y) = - round_half_even y" for y :: rat
  proof (cases "y = of_int \<lfloor>y\<rfloor>")
    case True
    then obtain N where N: "y = of_int N" by blast
    then show ?thesis by (simp add: round_half_even_def Let_def flip: of_int_minus)
  next
    case False
    then have f: "\<lfloor>- y\<rfloor> = - \<lfloor>y\<rfloor> - 1"
      by (metis ceiling_altdef ceiling_def diff_minus_eq_add minus_diff_eq add_diff_cancel_right' minus_minus uminus_add_conv_diff)
    define g where "g = \<lfloor>y\<rfloor>"
    define t where "t = y - of_int g"
    have t: "0 < t" "t < 1" using False unfolding t_def g_def by linarith+
    have eq: "- y - of_int (- g - 1) = 1 - t" by (simp add: t_def)
    show ?thesis
      unfolding round_half_even_def Let_def f g_def [symmetric] eq t_def [symmetric]
      using t by (auto simp: field_simps)
  qed
  have e: "ulp (- x) = ulp x" by (simp add: ulp_def exponent_def)
  show ?thesis
    using r [of "x / ulp x"] by (simp add: float64_def e)
qed


lemma Seconds_minus: "Seconds (- a) = - Seconds a"
proof (cases "a = 0")
  case True
  then show ?thesis by (simp add: Seconds_def quo_def float64_def)
next
  case False
  have q: "quo (- a) Second = - quo a Second"
    using False by (cases "0 \<le> a") (simp_all add: quo_def)
  have n: "- a - - quo a Second * Second = - (a - quo a Second * Second)" by simp
  have "Seconds (- a) =
      float64 (float64 (of_int (- quo a Second)) +
               float64 (float64 (of_int (- (a - quo a Second * Second))) / 1000000000))"
    unfolding Seconds_def Let_def q n ..
  also have "\<dots> =
      float64 (- (float64 (of_int (quo a Second)) +
                  float64 (float64 (of_int (a - quo a Second * Second)) / 1000000000)))"
  proof -
    have 1: "float64 (of_int (- k)) = - float64 (of_int k)" for k :: int
      by (simp only: of_int_minus float64_minus)
    have 2: "float64 (- x / 1000000000) = - float64 (x / 1000000000)" for x :: rat
      by (simp only: minus_divide_left [symmetric] float64_minus)
    show ?thesis by (simp only: 1 2 minus_add_distrib)
  qed
  also have "\<dots> = - Seconds a"
    unfolding Seconds_def Let_def by (simp only: float64_minus)
  finally show ?thesis .
qed

lemma whole_seconds_exact:
  assumes "\<bar>d\<bar> < 2 ^ 24 * Second"
  shows "whole_seconds d = quo d Second"
proof (cases "0 \<le> d")
  case True
  then have "d < 2 ^ 24 * Second" using assms by simp
  from Seconds_nonneg_exact [OF True this]
  have b: "of_int (d div Second) \<le> Seconds d" "Seconds d < of_int (d div Second) + 1"
    by simp_all
  have "0 \<le> d div Second" using True Second_pos by (simp add: pos_imp_zdiv_nonneg_iff)
  then have "(0 :: rat) \<le> of_int (d div Second)" by simp
  then have nn: "0 \<le> Seconds d" using b(1) by linarith
  have "\<lfloor>Seconds d\<rfloor> = d div Second" using b by (intro floor_unique) simp_all
  then show ?thesis using nn True by (simp add: whole_seconds_def int_of_float64_def quo_def)
next
  case False
  define a where "a = - d"
  have a: "0 \<le> a" "a < 2 ^ 24 * Second" "0 < a" using False assms by (simp_all add: a_def)
  from Seconds_nonneg_exact [OF a(1,2)]
  have b: "of_int (a div Second) \<le> Seconds a" "Seconds a < of_int (a div Second) + 1"
    by simp_all
  have s: "Seconds d = - Seconds a" using Seconds_minus [of a] by (simp add: a_def)
  have "0 \<le> a div Second" using a(1) Second_pos by (simp add: pos_imp_zdiv_nonneg_iff)
  then have "(0 :: rat) \<le> of_int (a div Second)" by simp
  then have nn: "0 \<le> Seconds a" using b(1) by linarith
  have fl: "\<lfloor>Seconds a\<rfloor> = a div Second" using b by (intro floor_unique) simp_all
  have "int_of_float64 (- Seconds a) = - (a div Second)"
  proof (cases "Seconds a = 0")
    case True
    then show ?thesis using fl by (simp add: int_of_float64_def)
  next
    case False
    then have "\<not> 0 \<le> - Seconds a" using nn by simp
    then show ?thesis using fl by (simp add: int_of_float64_def)
  qed
  then show ?thesis using False s by (simp add: whole_seconds_def quo_def a_def)
qed

lemma Seconds_nonneg_within:
  assumes "0 \<le> a" and "a \<le> 2 ^ 63"
  shows "of_int (a div Second) \<le> Seconds a \<and> Seconds a \<le> of_int (a div Second) + 1"
proof -
  define K where "K = a div Second"
  define n where "n = a - K * Second"
  from quotient_bounds [OF Second_pos assms(1)]
  have kb: "K * Second \<le> a" "a < (K + 1) * Second" "0 \<le> K" by (simp_all add: K_def)
  have n0: "0 \<le> n" using kb(1) by (simp add: n_def)
  have n1: "n < 1000000000" using kb(2) by (simp add: n_def Second_def algebra_simps)
  have k52: "K < 2 ^ 52"
  proof (rule ccontr)
    assume "\<not> K < 2 ^ 52"
    then have "2 ^ 52 \<le> K" by simp
    then have "2 ^ 52 * Second \<le> K * Second"
      using Second_pos by (intro mult_right_mono) simp_all
    moreover have "(2 :: int) ^ 63 < 2 ^ 52 * Second" by (simp add: Second_def)
    ultimately show False using kb(1) assms(2) by linarith
  qed
  have k52r: "(of_int K :: rat) < 2 ^ 52"
  proof -
    have "(of_int K :: rat) < of_int (2 ^ 52)" using k52 by (simp only: of_int_less_iff)
    then show ?thesis by simp
  qed
  have k0r: "(0 :: rat) \<le> of_int K" using kb(3) by simp
  have "\<bar>of_int K :: rat\<bar> < 2 ^ 53" using k52r k0r by simp
  then have fk: "float64 (of_int K) = of_int K" by (rule float64_of_int)
  have "\<bar>of_int n :: rat\<bar> < 2 ^ 53"
  proof -
    have "n < 2 ^ 53" using n1 by (rule less_trans) simp
    then have "(of_int n :: rat) < of_int (2 ^ 53)" by (simp only: of_int_less_iff)
    then show ?thesis using n0 by simp
  qed
  then have fn: "float64 (of_int n) = of_int n" by (rule float64_of_int)
  have q: "quo a Second = K" using assms(1) by (simp add: quo_def K_def)
  have "Seconds a =
      float64 (float64 (of_int K) + float64 (float64 (of_int n) / 1000000000))"
    unfolding Seconds_def Let_def q n_def ..
  then have s: "Seconds a = float64 (of_int K + float64 (of_int n / 1000000000))"
    by (simp only: fk fn)
  define y :: rat where "y = of_int K + float64 (of_int n / 1000000000)"
  from fraction_bounds [OF n0 n1]
  have f0: "0 \<le> float64 (of_int n / 1000000000)"
    and f1: "float64 (of_int n / 1000000000) \<le> 999999999 / 1000000000 + 1 / 2 ^ 54"
    by simp_all
  have "(999999999 / 1000000000 + 1 / 2 ^ 54 :: rat) \<le> 1" by simp
  with f1 have f2: "float64 (of_int n / 1000000000) \<le> 1" by linarith
  have y0: "of_int K \<le> y" using f0 by (simp add: y_def)
  have y1: "y \<le> of_int (K + 1)" using f2 by (simp add: y_def)
  have "(2 :: rat) ^ 52 + 1 < 2 ^ 53" by simp
  then have "y < 2 ^ 53" using y1 k52r by simp
  moreover have "0 \<le> y" using y0 k0r by linarith
  ultimately have yb: "\<bar>y\<bar> < 2 ^ 53" by simp
  have lo: "of_int K \<le> float64 y" using y0 yb by (rule float64_ge)
  have hi: "float64 y \<le> of_int (K + 1)" using y1 yb by (rule float64_le)
  from lo hi s show ?thesis by (simp add: y_def K_def)
qed

lemma whole_seconds_within_one:
  assumes "- (2 ^ 63) \<le> d" and "d < 2 ^ 63"
  shows "if 0 \<le> d
         then quo d Second \<le> whole_seconds d \<and> whole_seconds d \<le> quo d Second + 1
         else quo d Second - 1 \<le> whole_seconds d \<and> whole_seconds d \<le> quo d Second"
proof (cases "0 \<le> d")
  case True
  have "d \<le> 2 ^ 63" using assms(2) by simp
  from Seconds_nonneg_within [OF True this]
  have b: "of_int (d div Second) \<le> Seconds d" "Seconds d \<le> of_int (d div Second) + 1"
    by simp_all
  have "0 \<le> d div Second" using True Second_pos by (simp add: pos_imp_zdiv_nonneg_iff)
  then have "(0 :: rat) \<le> of_int (d div Second)" by simp
  then have nn: "0 \<le> Seconds d" using b(1) by linarith
  have lo: "d div Second \<le> \<lfloor>Seconds d\<rfloor>" using b(1) by (simp add: le_floor_iff)
  have "\<lfloor>Seconds d\<rfloor> \<le> \<lfloor>of_int (d div Second + 1) :: rat\<rfloor>"
    using b(2) by (intro floor_mono) simp
  then have hi: "\<lfloor>Seconds d\<rfloor> \<le> d div Second + 1" by (simp only: floor_of_int)
  from lo hi show ?thesis
    using nn True by (simp add: whole_seconds_def int_of_float64_def quo_def)
next
  case False
  define a where "a = - d"
  have a: "0 \<le> a" "a \<le> 2 ^ 63" "0 < a" using False assms by (simp_all add: a_def)
  from Seconds_nonneg_within [OF a(1,2)]
  have b: "of_int (a div Second) \<le> Seconds a" "Seconds a \<le> of_int (a div Second) + 1"
    by simp_all
  have s: "Seconds d = - Seconds a" using Seconds_minus [of a] by (simp add: a_def)
  have "0 \<le> a div Second" using a(1) Second_pos by (simp add: pos_imp_zdiv_nonneg_iff)
  then have "(0 :: rat) \<le> of_int (a div Second)" by simp
  then have nn: "0 \<le> Seconds a" using b(1) by linarith
  have lo: "a div Second \<le> \<lfloor>Seconds a\<rfloor>" using b(1) by (simp add: le_floor_iff)
  have "\<lfloor>Seconds a\<rfloor> \<le> \<lfloor>of_int (a div Second + 1) :: rat\<rfloor>"
    using b(2) by (intro floor_mono) simp
  then have hi: "\<lfloor>Seconds a\<rfloor> \<le> a div Second + 1" by (simp only: floor_of_int)
  have "int_of_float64 (- Seconds a) = - \<lfloor>Seconds a\<rfloor>"
  proof (cases "Seconds a = 0")
    case True
    then show ?thesis by (simp add: int_of_float64_def)
  next
    case False
    then have "\<not> 0 \<le> - Seconds a" using nn by simp
    then show ?thesis by (simp add: int_of_float64_def)
  qed
  then have w: "whole_seconds d = - \<lfloor>Seconds a\<rfloor>" by (simp add: whole_seconds_def s)
  have q: "quo d Second = - (a div Second)" using False by (simp add: quo_def a_def)
  from lo hi show ?thesis using False by (simp add: w q)
qed

lemma bits_numeral_step: "bits (numeral k) = Suc (bits (numeral k div 2))"
  by (simp add: bits.simps [of "numeral k"])

lemma bits_0: "bits 0 = 0" and bits_1: "bits 1 = 1" and bits_Suc_0: "bits (Suc 0) = 1"
  by (simp_all add: bits.simps)

lemma bits_2_pow_24: "bits 16777216 = 25"
  by (simp add: bits_numeral_step bits_0 bits_1 bits_Suc_0)

lemma long_duration_rounds_up: "whole_seconds 16777216999999999 = 16777217"
proof -
  define x :: rat where "x = 999999999 / 1000000000"
  define q :: rat where "q = 9007199245733793 / 2 ^ 53"
  define y :: rat where "y = 16777216 + q"
  have fx: "float64 x = q"
  proof -
    have c: "\<lceil>1 / \<bar>x\<bar>\<rceil> = 2" unfolding x_def by (rule ceiling_unique) simp_all
    have small: "\<not> 1 \<le> \<bar>x\<bar>" unfolding x_def by simp
    have e: "exponent x = - 1" using small by (simp add: exponent_def c bits_Suc_0)
    have u: "ulp x = 1 / 2 ^ 53" by (simp add: ulp_def e pow2_def)
    have fl: "\<lfloor>x * 2 ^ 53\<rfloor> = 9007199245733792"
      unfolding x_def by (rule floor_unique) simp_all
    have r: "round_half_even (x * 2 ^ 53) = 9007199245733793"
      unfolding round_half_even_def Let_def fl by (simp add: x_def)
    have nz: "x \<noteq> 0" by (simp add: x_def)
    have "float64 x = of_int (round_half_even (x * 2 ^ 53)) * (1 / 2 ^ 53)"
      using nz by (simp add: float64_def u)
    then show ?thesis unfolding r q_def by simp
  qed
  have fy: "float64 y = 16777217"
  proof -
    have f: "\<lfloor>\<bar>y\<bar>\<rfloor> = 16777216"
      unfolding y_def q_def by (rule floor_unique) simp_all
    have big: "1 \<le> \<bar>y\<bar>" unfolding y_def q_def by simp
    have e: "exponent y = 24" using big by (simp add: exponent_def f bits_2_pow_24)
    have u: "ulp y = 1 / 2 ^ 28" by (simp add: ulp_def e pow2_def)
    have fl: "\<lfloor>y * 2 ^ 28\<rfloor> = 4503599895805951"
      unfolding y_def q_def by (rule floor_unique) simp_all
    have r: "round_half_even (y * 2 ^ 28) = 4503599895805952"
      unfolding round_half_even_def Let_def fl by (simp add: y_def q_def)
    have nz: "y \<noteq> 0" using big by auto
    have "float64 y = of_int (round_half_even (y * 2 ^ 28)) * (1 / 2 ^ 28)"
      using nz by (simp add: float64_def u)
    then show ?thesis unfolding r by simp
  qed
  have qd: "quo 16777216999999999 Second = 16777216" by (simp add: quo_def Second_def)
  have n: "16777216999999999 - 16777216 * Second = 999999999" by (simp add: Second_def)
  have a: "float64 (of_int 16777216) = 16777216"
    using float64_of_int [of 16777216] by simp
  have b: "float64 (of_int 999999999) = 999999999"
    using float64_of_int [of 999999999] by simp
  have "Seconds 16777216999999999 =
      float64 (float64 (of_int 16777216) + float64 (float64 (of_int 999999999) / 1000000000))"
    unfolding Seconds_def Let_def qd n ..
  also have "\<dots> = float64 (16777216 + float64 x)" by (simp only: a b x_def)
  also have "\<dots> = float64 y" by (simp only: fx y_def)
  finally have "Seconds 16777216999999999 = 16777217" by (simp only: fy)
  then show ?thesis by (simp add: whole_seconds_def int_of_float64_def)
qed

section \<open>Facts about parsing and validation\<close>

lemma whole_seconds_default [simp]: "whole_seconds defaultStressDuration = 2"
  by (simp add: whole_seconds_exact quo_def defaultStressDuration_def Second_def)

lemma whole_seconds_max [simp]: "whole_seconds maxStressDuration = 30"
  by (simp add: whole_seconds_exact quo_def maxStressDuration_def Second_def)

lemma parseAndValidate_cases:
  "parseAndValidateStressRequest e r =
     (if parsed_durationSeconds e r < 1 \<or> 30 < parsed_durationSeconds e r
      then Inl \<lparr>Field = ''duration'', Problem = ''duration must be between 1s and 30s''\<rparr>
      else if parsed_workers e r < 1
      then Inl \<lparr>Field = ''workers'',
                 Problem = ''workers must be between 1 and '' @ Itoa (NumCPU e * 2)\<rparr>
      else Inr \<lparr>DurationSeconds = parsed_durationSeconds e r,
                 Workers = min (parsed_workers e r) (NumCPU e * 2)\<rparr>)"
  by (simp add: parseAndValidateStressRequest_def validate_Struct_def Let_def min_def)

lemma parsed_duration_Some:
  "Query_Get r ''duration'' = ds \<Longrightarrow> ds \<noteq> [] \<Longrightarrow> ParseDuration e ds = Some d \<Longrightarrow>
   parsed_durationSeconds e r = whole_seconds d"
  by (simp add: parsed_durationSeconds_def)


lemma parsed_workers_Some:
  "Query_Get r ''workers'' = ws \<Longrightarrow> ws \<noteq> [] \<Longrightarrow> Atoi ws = Some n \<Longrightarrow>
   parsed_workers e r = n"
  by (simp add: parsed_workers_def)


lemma whole_seconds_sub_second: "\<bar>d\<bar> < Second \<Longrightarrow> whole_seconds d = 0"
proof -
  assume lt: "\<bar>d\<bar> < Second"
  have "Second \<le> 2 ^ 24 * Second" by (simp add: Second_def)
  with lt have "\<bar>d\<bar> < 2 ^ 24 * Second" by linarith
  then have "whole_seconds d = quo d Second" by (rule whole_seconds_exact)
  moreover have "quo d Second = 0" using lt by (simp add: quo_def Second_def)
  ultimately show ?thesis by simp
qed

lemma quo_toward_zero:
  "\<bar>quo d Second\<bar> * Second \<le> \<bar>d\<bar> \<and> \<bar>d\<bar> < (\<bar>quo d Second\<bar> + 1) * Second \<and>
   (if 0 \<le> d then 0 \<le> quo d Second else quo d Second \<le> 0)"
proof (cases "0 \<le> d")
  case True
  from quotient_bounds [OF Second_pos True] True show ?thesis
    by (simp add: quo_def)
next
  case False
  then have "0 \<le> - d" by simp
  from quotient_bounds [OF Second_pos this] False show ?thesis
    by (simp add: quo_def)
qed

lemma whole_seconds_long:
  assumes "- (2 ^ 63) \<le> d" and "d < 2 ^ 63" and "2 ^ 24 * Second \<le> \<bar>d\<bar>"
  shows "whole_seconds d < 1 \<or> 30 < whole_seconds d"
proof (cases "0 \<le> d")
  case True
  from quotient_bounds [OF Second_pos True]
  have "d < (d div Second + 1) * Second" by simp
  moreover have "2 ^ 24 * Second \<le> d" using assms(3) True by simp
  ultimately have "2 ^ 24 * Second < (d div Second + 1) * Second" by linarith
  then have "2 ^ 24 < d div Second + 1" using Second_pos by (simp only: mult_less_cancel_right_pos)
  then have "30 < quo d Second" using True by (simp add: quo_def)
  moreover have "quo d Second \<le> whole_seconds d"
    using whole_seconds_within_one [OF assms(1,2)] True by simp
  ultimately show ?thesis by linarith
next
  case False
  have "quo d Second \<le> 0"
    using False Second_pos by (simp add: quo_def pos_imp_zdiv_nonneg_iff)
  moreover have "whole_seconds d \<le> quo d Second"
    using whole_seconds_within_one [OF assms(1,2)] False by simp
  ultimately show ?thesis by linarith
qed

lemma whole_seconds_toward_zero:
  assumes "\<bar>d\<bar> < 2 ^ 24 * Second"
  shows "\<bar>whole_seconds d\<bar> * Second \<le> \<bar>d\<bar> \<and> \<bar>d\<bar> < (\<bar>whole_seconds d\<bar> + 1) * Second \<and>
         (if 0 \<le> d then 0 \<le> whole_seconds d else whole_seconds d \<le> 0)"
  unfolding whole_seconds_exact [OF assms] by (rule quo_toward_zero)

section \<open>Facts about the response writer\<close>

text \<open>
  Whatever wrappers stand around it, a call on a writer does to the connection what the
  server's method does; the following facts read the connection through the wrappers.
\<close>

lemma connection_Header_Set [simp]:
  "connection (Header_Set k v w) =
     (connection w)\<lparr>handlerHeader := (handlerHeader (connection w))(k \<mapsto> v)\<rparr>"
  by (induction w) (simp_all add: fun_upd_def)

lemma connection_Header_Del [simp]:
  "connection (Header_Del k w) =
     (connection w)\<lparr>handlerHeader := (handlerHeader (connection w))(k := None)\<rparr>"
  by (induction w) (simp_all add: fun_upd_def)

lemma connection_WriteHeader:
  "map_outcome connection (WriteHeader code w) = response_WriteHeader code (connection w)"
  by (induction w) (auto split: outcome.splits)

lemma connection_Write:
  "connection (fst (Write b w)) = fst (response_Write b (connection w)) \<and>
   snd (Write b w) = snd (response_Write b (connection w))"
  by (induction w) (auto split: prod.splits)

lemma WriteHeader_Done:
  assumes "response_WriteHeader code (connection w) = Done c'"
  shows "\<exists>w'. WriteHeader code w = Done w' \<and> connection w' = c'"
  using connection_WriteHeader [of code w] assms
  by (cases "WriteHeader code w") simp_all

lemma response_WriteHeader_commit:
  "\<not> wroteHeader c \<Longrightarrow> 200 \<le> code \<Longrightarrow> code \<le> 999 \<Longrightarrow>
   response_WriteHeader code c =
     Done (c\<lparr>wroteHeader := True, status := code, sentHeader := handlerHeader c\<rparr>)"
  by (simp add: response_WriteHeader_def)

lemma response_WriteHeader_superfluous:
  "wroteHeader c \<Longrightarrow> response_WriteHeader code c = Done c"
  by (simp add: response_WriteHeader_def)

lemma response_Write_committed:
  "wroteHeader c \<Longrightarrow>
   response_Write b c =
     (if bodyAllowedForStatus (status c) then (c\<lparr>body := body c @ b\<rparr>, True) else (c, False))"
  by (simp add: response_Write_def)

text \<open>\<^verbatim>\<open>http.Error\<close> on a writer whose status line is already out.\<close>

lemma http_Error_committed:
  assumes "wroteHeader (connection w)"
  shows "\<exists>w'. http_Error w m code = Done w' \<and>
           wroteHeader (connection w') \<and>
           status (connection w') = status (connection w) \<and>
           sentHeader (connection w') = sentHeader (connection w) \<and>
           body (connection w') =
             (if bodyAllowedForStatus (status (connection w))
              then body (connection w) @ m @ ''\<newline>'' else body (connection w))"
proof -
  let ?w3 = "Header_Set ''X-Content-Type-Options'' ''nosniff''
               (Header_Set ''Content-Type'' ''text/plain; charset=utf-8''
                 (Header_Del ''Content-Length'' w))"
  have c3: "wroteHeader (connection ?w3)" using assms by simp
  from WriteHeader_Done [OF response_WriteHeader_superfluous [OF c3]]
  obtain w4 where w4: "WriteHeader code ?w3 = Done w4" "connection w4 = connection ?w3"
    by blast
  have "http_Error w m code = Done (fst (Write (m @ ''\<newline>'') w4))"
    using w4(1) by (simp add: http_Error_def)
  moreover have "connection (fst (Write (m @ ''\<newline>'') w4)) =
      fst (response_Write (m @ ''\<newline>'') (connection w4))"
    by (simp add: connection_Write)
  ultimately show ?thesis
    using assms w4(2) by (simp add: response_Write_committed)
qed

text \<open>\<^verbatim>\<open>http.Error\<close> on a writer nothing has been written to.\<close>

lemma http_Error_fresh:
  assumes "\<not> wroteHeader (connection w)" and "200 \<le> code" and "code \<le> 999"
  shows "\<exists>w'. http_Error w m code = Done w' \<and>
           wroteHeader (connection w') \<and>
           status (connection w') = code \<and>
           sentHeader (connection w') ''Content-Type'' = Some ''text/plain; charset=utf-8'' \<and>
           body (connection w') =
             (if bodyAllowedForStatus code
              then body (connection w) @ m @ ''\<newline>'' else body (connection w))"
proof -
  let ?w3 = "Header_Set ''X-Content-Type-Options'' ''nosniff''
               (Header_Set ''Content-Type'' ''text/plain; charset=utf-8''
                 (Header_Del ''Content-Length'' w))"
  have c3: "\<not> wroteHeader (connection ?w3)" using assms by simp
  from WriteHeader_Done [OF response_WriteHeader_commit [OF c3 assms(2,3)]]
  obtain w4 where w4: "WriteHeader code ?w3 = Done w4"
    "connection w4 = (connection ?w3)\<lparr>wroteHeader := True, status := code,
        sentHeader := handlerHeader (connection ?w3)\<rparr>"
    by blast
  have "http_Error w m code = Done (fst (Write (m @ ''\<newline>'') w4))"
    using w4(1) by (simp add: http_Error_def)
  moreover have "connection (fst (Write (m @ ''\<newline>'') w4)) =
      fst (response_Write (m @ ''\<newline>'') (connection w4))"
    by (simp add: connection_Write)
  ultimately show ?thesis
    using w4(2) by (simp add: response_Write_committed)
qed

lemma SendJSON_commit:
  assumes "\<not> wroteHeader (connection w)" and "200 \<le> code" and "code \<le> 999"
  shows "\<exists>w2. WriteHeader code (Header_Set ''Content-Type'' ''application/json'' w) = Done w2 \<and>
           connection w2 =
             (connection w)\<lparr>handlerHeader := (handlerHeader (connection w))(''Content-Type'' \<mapsto> ''application/json''),
                             wroteHeader := True, status := code,
                             sentHeader := (handlerHeader (connection w))(''Content-Type'' \<mapsto> ''application/json'')\<rparr> \<and>
           SendJSON e w code d =
             (case Encode e w2 d of
                (w3, True) \<Rightarrow> Done w3
              | (w3, False) \<Rightarrow> http_Error w3 encodeFailedBody 500)"
proof -
  let ?w1 = "Header_Set ''Content-Type'' ''application/json'' w"
  have c1: "\<not> wroteHeader (connection ?w1)" using assms(1) by simp
  from WriteHeader_Done [OF response_WriteHeader_commit [OF c1 assms(2,3)]]
  obtain w2 where w2: "WriteHeader code ?w1 = Done w2"
    "connection w2 = (connection ?w1)\<lparr>wroteHeader := True, status := code,
        sentHeader := handlerHeader (connection ?w1)\<rparr>"
    by blast
  have "SendJSON e w code d =
      (case Encode e w2 d of
         (w3, True) \<Rightarrow> Done w3
       | (w3, False) \<Rightarrow> http_Error w3 encodeFailedBody 500)"
    using w2(1) by (simp add: SendJSON_def)
  with w2 show ?thesis by simp
qed

lemma SendJSON_fresh:
  assumes "\<not> wroteHeader (connection w)" and "200 \<le> code" and "code \<le> 999"
  shows "\<exists>w'. SendJSON e w code d = Done w' \<and>
           wroteHeader (connection w') \<and>
           status (connection w') = code \<and>
           sentHeader (connection w') ''Content-Type'' = Some ''application/json'' \<and>
           body (connection w') =
             (if bodyAllowedForStatus code
              then body (connection w) @
                   (case Marshal e d of Some b \<Rightarrow> b | None \<Rightarrow> encodeFailedBody) @ ''\<newline>''
              else body (connection w))"
proof -
  from SendJSON_commit [OF assms, of e d]
  obtain w2 where w2:
    "connection w2 =
       (connection w)\<lparr>handlerHeader := (handlerHeader (connection w))(''Content-Type'' \<mapsto> ''application/json''),
                       wroteHeader := True, status := code,
                       sentHeader := (handlerHeader (connection w))(''Content-Type'' \<mapsto> ''application/json'')\<rparr>"
    and send: "SendJSON e w code d =
       (case Encode e w2 d of
          (w3, True) \<Rightarrow> Done w3
        | (w3, False) \<Rightarrow> http_Error w3 encodeFailedBody 500)"
    by blast
  have committed: "wroteHeader (connection w2)" using w2 by simp
  show ?thesis
  proof (cases "Marshal e d")
    case None
    then have enc: "Encode e w2 d = (w2, False)" by (simp add: Encode_def)
    from http_Error_committed [OF committed, of encodeFailedBody 500]
    obtain w' where "http_Error w2 encodeFailedBody 500 = Done w'"
      "wroteHeader (connection w')" "status (connection w') = status (connection w2)"
      "sentHeader (connection w') = sentHeader (connection w2)"
      "body (connection w') =
         (if bodyAllowedForStatus (status (connection w2))
          then body (connection w2) @ encodeFailedBody @ ''\<newline>'' else body (connection w2))"
      by blast
    then show ?thesis using send enc w2 None by simp
  next
    case (Some b)
    let ?wr = "Write (b @ ''\<newline>'') w2"
    have enc: "Encode e w2 d = ?wr" using Some by (simp add: Encode_def)
    have cw: "connection (fst ?wr) = fst (response_Write (b @ ''\<newline>'') (connection w2))"
      and ok: "snd ?wr = snd (response_Write (b @ ''\<newline>'') (connection w2))"
      using connection_Write [of "b @ ''\<newline>''" w2] by simp_all
    show ?thesis
    proof (cases "bodyAllowedForStatus code")
      case True
      then have "snd ?wr" using ok committed w2 by (simp add: response_Write_committed)
      then have "SendJSON e w code d = Done (fst ?wr)"
        using send enc by (simp add: case_prod_beta)
      then show ?thesis using cw committed w2 True Some
        by (simp add: response_Write_committed)
    next
      case False
      then have nok: "\<not> snd ?wr" using ok committed w2 by (simp add: response_Write_committed)
      then have s1: "SendJSON e w code d = http_Error (fst ?wr) encodeFailedBody 500"
        using send enc by (simp add: case_prod_beta)
      have c3: "connection (fst ?wr) = connection w2"
        using cw committed w2 False by (simp add: response_Write_committed)
      then have "wroteHeader (connection (fst ?wr))" using committed by simp
      from http_Error_committed [OF this, of encodeFailedBody 500]
      obtain w' where "http_Error (fst ?wr) encodeFailedBody 500 = Done w'"
        "wroteHeader (connection w')" "status (connection w') = status (connection (fst ?wr))"
        "sentHeader (connection w') = sentHeader (connection (fst ?wr))"
        "body (connection w') =
           (if bodyAllowedForStatus (status (connection (fst ?wr)))
            then body (connection (fst ?wr)) @ encodeFailedBody @ ''\<newline>''
            else body (connection (fst ?wr)))"
        by blast
      then show ?thesis using s1 c3 w2 False by simp
    qed
  qed
qed

section \<open>Facts about the middleware and the handlers\<close>

lemma http_Error_500_Done:
  "\<exists>w'. http_Error w m 500 = Done w' \<and> wroteHeader (connection w') \<and>
     (if wroteHeader (connection w)
      then status (connection w') = status (connection w) \<and>
           sentHeader (connection w') = sentHeader (connection w)
      else status (connection w') = 500 \<and>
           sentHeader (connection w') ''Content-Type'' = Some ''text/plain; charset=utf-8'' \<and>
           body (connection w') = body (connection w) @ m @ ''\<newline>'')"
proof (cases "wroteHeader (connection w)")
  case True
  from http_Error_committed [OF True, of m 500] True show ?thesis by auto
next
  case False
  from http_Error_fresh [OF False, of 500 m] False show ?thesis
    by (auto simp: bodyAllowedForStatus_def)
qed

lemma Logging_Done:
  "next r (newResponseWriter w) s = Done (w', s') \<Longrightarrow>
   Logging next r w s =
     Done (embedded w',
           emit (requestLevel (statusCode w'))
             [(''method'', FStr (Method r)), (''path'', FStr (Path r)),
              (''status'', FInt (statusCode w')), (''duration'', FDur (now s' - now s)),
              (''remote_addr'', FStr (RemoteAddr r)), (''user_agent'', FStr (UserAgent r))]
             ''HTTP request completed''
             (ObserveRequestDuration (Path r) (Method r) (now s' - now s) s'))"
  by (simp add: Logging_def Let_def)

lemma Logging_Panic:
  "next r (newResponseWriter w) s = Panic p (w', s') \<Longrightarrow>
   Logging next r w s = Panic p (embedded w', s')"
  by (simp add: Logging_def Let_def)

lemma Recovery_Done:
  "next r w s = Done ws \<Longrightarrow> Recovery next r w s = Done ws"
  by (simp add: Recovery_def)

lemma Recovery_Panic:
  assumes "next r w s = Panic p (w', s')"
  shows "\<exists>w''. Recovery next r w s =
           Done (w'', emit ErrorLevel
                        [(''panic'', FInterface p), (''path'', FStr (Path r)),
                         (''method'', FStr (Method r))]
                        ''Recovered from panic'' s') \<and>
         wroteHeader (connection w'') \<and>
         (if wroteHeader (connection w')
          then status (connection w'') = status (connection w')
          else status (connection w'') = 500 \<and>
               body (connection w'') = body (connection w') @ recoveredBody @ ''\<newline>'')"
proof -
  from http_Error_500_Done [of w' recoveredBody]
  obtain w'' where e: "http_Error w' recoveredBody 500 = Done w''"
    and c: "wroteHeader (connection w'')"
    and st: "(if wroteHeader (connection w')
      then status (connection w'') = status (connection w') \<and>
           sentHeader (connection w'') = sentHeader (connection w')
      else status (connection w'') = 500 \<and>
           sentHeader (connection w'') ''Content-Type'' = Some ''text/plain; charset=utf-8'' \<and>
           body (connection w'') = body (connection w') @ recoveredBody @ ''\<newline>'')"
    by blast
  have "Recovery next r w s =
      Done (w'', emit ErrorLevel
                   [(''panic'', FInterface p), (''path'', FStr (Path r)),
                    (''method'', FStr (Method r))]
                   ''Recovered from panic'' s')"
    using assms e by (simp add: Recovery_def Let_def)
  then show ?thesis using c st by (auto split: if_splits)
qed

lemma run_calls_wrapper:
  "run_calls cs (responseWriter u sc) s = Done (w', s') \<Longrightarrow>
   \<exists>u'. w' = responseWriter u' (if status_writes cs = [] then sc else last (status_writes cs))"
proof (induction cs arbitrary: u sc s)
  case Nil
  then show ?case by auto
next
  case (Cons c cs)
  show ?case
  proof (cases c)
    case (CallWriteHeader code)
    with Cons.prems obtain u1 where
      "WriteHeader code u = Done u1" "run_calls cs (responseWriter u1 code) s = Done (w', s')"
      by (auto split: outcome.splits)
    from Cons.IH [OF this(2)] CallWriteHeader show ?thesis by auto
  next
    case (CallWrite b)
    with Cons.prems have "run_calls cs (responseWriter (fst (Write b u)) sc) s = Done (w', s')"
      by (simp split: prod.splits)
    from Cons.IH [OF this] CallWrite show ?thesis by auto
  qed (use Cons in auto)
qed

lemma StressHandler_rejected:
  assumes "parseAndValidateStressRequest e r = Inl err"
  shows "StressHandler e r w s =
           with_world
             (emit WarnLevel [(''error'', FErr (Problem err)), (''path'', FStr (Path r))]
                ''Invalid stress request parameters'' (TrackRequest (Path r) (Method r) s))
             (SendJSON e w 400 (ResponseData (Error (Problem err))))"
  using assms by (simp add: StressHandler_def Let_def)

lemma stressRuns_emit [simp]: "stressRuns (emit l fs m s) = stressRuns s"
  by (simp add: emit_def)

lemma stressRuns_TrackRequest [simp]: "stressRuns (TrackRequest p m s) = stressRuns s"
  by (simp add: TrackRequest_def)

lemma StressHandler_400:
  assumes "parseAndValidateStressRequest e r = Inl err" and "\<not> wroteHeader (connection w)"
  shows "\<exists>w' s'. StressHandler e r w s = Done (w', s') \<and>
           status (connection w') = 400 \<and>
           body (connection w') =
             body (connection w) @
             (case Marshal e (ResponseData (Error (Problem err))) of
                Some b \<Rightarrow> b | None \<Rightarrow> encodeFailedBody) @ ''\<newline>'' \<and>
           stressRuns s' = stressRuns s"
proof -
  from SendJSON_fresh [OF assms(2), of 400 e "ResponseData (Error (Problem err))"]
  obtain w' where "SendJSON e w 400 (ResponseData (Error (Problem err))) = Done w'"
    "status (connection w') = 400"
    "body (connection w') =
       (if bodyAllowedForStatus 400
        then body (connection w) @
             (case Marshal e (ResponseData (Error (Problem err))) of
                Some b \<Rightarrow> b | None \<Rightarrow> encodeFailedBody) @ ''\<newline>''
        else body (connection w))"
    by auto
  then show ?thesis
    using StressHandler_rejected [OF assms(1), of w s]
    by (simp add: bodyAllowedForStatus_def)
qed



text \<open>
  When both parameters are out of range, the failure reported is the one of the duration:
  the validator lists the fields in the order of the struct and
  \<^verbatim>\<open>formatValidationError\<close> returns at the first of them.
\<close>

lemma duration_failure_is_reported_first:
  assumes "parsed_durationSeconds e r < 1 \<or> 30 < parsed_durationSeconds e r"
  shows "parseAndValidateStressRequest e r =
           Inl \<lparr>Field = ''duration'', Problem = ''duration must be between 1s and 30s''\<rparr>"
  using assms by (simp add: parseAndValidate_cases)

section \<open>The duration ceiling\<close>

text \<open>
  C1, as the code has it. A request whose \<^verbatim>\<open>duration\<close> parses to more than 30 whole
  seconds is not clamped: the struct tag \<^verbatim>\<open>max=30\<close> fails first, so
  \<^verbatim>\<open>parseAndValidateStressRequest\<close> returns the validation failure for the field
  \<^verbatim>\<open>duration\<close> with the message "duration must be between 1s and 30s", and on a
  fresh connection the handler answers with status 400 and the encoding of the error
  response with that message, and makes no load run. The assignment that would clamp
  the duration to 30 is never reached.
\<close>

theorem duration_above_max_is_rejected:
  assumes "Query_Get r ''duration'' = ds" and "ds \<noteq> []"
    and "ParseDuration e ds = Some d" and "30 < whole_seconds d"
    and "\<not> wroteHeader (connection w)"
  shows "parseAndValidateStressRequest e r =
           Inl \<lparr>Field = ''duration'', Problem = ''duration must be between 1s and 30s''\<rparr> \<and>
         (\<exists>w' s'. StressHandler e r w s = Done (w', s') \<and>
            status (connection w') = 400 \<and>
            body (connection w') =
              body (connection w) @
              (case Marshal e
                      (ResponseData (Error ''duration must be between 1s and 30s'')) of
                 Some b \<Rightarrow> b | None \<Rightarrow> encodeFailedBody) @ ''\<newline>'' \<and>
            stressRuns s' = stressRuns s)"
proof -
  have "parsed_durationSeconds e r = whole_seconds d"
    using assms(1-3) by (rule parsed_duration_Some)
  then have p: "parseAndValidateStressRequest e r =
      Inl \<lparr>Field = ''duration'', Problem = ''duration must be between 1s and 30s''\<rparr>"
    using assms(4) by (simp add: parseAndValidate_cases)
  from StressHandler_400 [OF p assms(5), of s] p show ?thesis by simp
qed

text \<open>The request \<^verbatim>\<open>GET /stress?duration=45s\<close> on the four-core host.\<close>

theorem duration_above_max_is_rejected_witness:
  \<open>parseAndValidateStressRequest example_env (stress_request [(''duration'', ''45s'')]) =
     Inl \<lparr>Field = ''duration'', Problem = ''duration must be between 1s and 30s''\<rparr> \<and>
   (\<exists>w' s'. StressHandler example_env (stress_request [(''duration'', ''45s'')])
               (conn new_response) idle = Done (w', s') \<and>
      status (connection w') = 400 \<and>
      body (connection w') =
        ''{"status":"error","message":"duration must be between 1s and 30s"}\<newline>'' \<and>
      stressRuns s' = [])\<close>
proof -
  let ?r = "stress_request [(''duration'', ''45s'')]"
  have q: "Query_Get ?r ''duration'' = ''45s''"
    by (simp add: Query_Get_def stress_request_def)
  have p: "ParseDuration example_env ''45s'' = Some 45000000000"
    by (simp add: example_env_def ParseDuration_examples_def)
  have big: "30 < whole_seconds 45000000000"
    by (simp add: whole_seconds_exact quo_def Second_def)
  have fresh: "\<not> wroteHeader (connection (conn new_response))"
    by (simp add: new_response_def)
  have m: \<open>Marshal example_env (ResponseData (Error ''duration must be between 1s and 30s'')) =
      Some ''{"status":"error","message":"duration must be between 1s and 30s"}''\<close>
    by (simp add: example_env_def Marshal_examples_def Error_def)
  show ?thesis
    using duration_above_max_is_rejected [OF q _ p big fresh, of idle] m
    by (simp add: idle_def new_response_def)
qed

text \<open>
  C1 as the specification states it fails for \<^verbatim>\<open>duration=45s\<close>: the parsed duration is
  above 30 seconds, the result is the validation failure and not a request with
  duration 30, the response has status 400 and no load run is made.
\<close>

theorem duration_45s_is_not_clamped:
  "ParseDuration example_env ''45s'' = Some 45000000000 \<and>
   30 * Second < 45000000000 \<and>
   parseAndValidateStressRequest example_env (stress_request [(''duration'', ''45s'')]) =
     Inl \<lparr>Field = ''duration'', Problem = ''duration must be between 1s and 30s''\<rparr> \<and>
   (\<exists>w' s'. StressHandler example_env (stress_request [(''duration'', ''45s'')])
               (conn new_response) idle = Done (w', s') \<and>
             status (connection w') = 400 \<and> stressRuns s' = [])"
proof -
  let ?r = "stress_request [(''duration'', ''45s'')]"
  have p: "parseAndValidateStressRequest example_env ?r =
      Inl \<lparr>Field = ''duration'', Problem = ''duration must be between 1s and 30s''\<rparr>"
    by (simp add: parseAndValidate_cases parsed_durationSeconds_def Query_Get_def
        stress_request_def example_env_def ParseDuration_examples_def whole_seconds_exact quo_def
        Second_def)
  have fresh: "\<not> wroteHeader (connection (conn new_response))"
    by (simp add: new_response_def)
  from StressHandler_400 [OF p fresh, of idle]
  obtain w' s' where "StressHandler example_env ?r (conn new_response) idle = Done (w', s')"
    "status (connection w') = 400" "stressRuns s' = stressRuns idle"
    by blast
  then have "\<exists>w' s'. StressHandler example_env ?r (conn new_response) idle = Done (w', s') \<and>
      status (connection w') = 400 \<and> stressRuns s' = []"
    by (auto simp: idle_def)
  moreover have "ParseDuration example_env ''45s'' = Some 45000000000"
    by (simp add: example_env_def ParseDuration_examples_def)
  moreover have "30 * Second < 45000000000" by (simp add: Second_def)
  ultimately show ?thesis using p by blast
qed

section \<open>One observation and one log event for each request\<close>

text \<open>
  C2, as the code has it. When the handler returns, the chain
  \<^verbatim>\<open>Recovery(Logging(handler))\<close> adds exactly one duration observation and exactly one
  "HTTP request completed" event to what the handler left, and the status of the event
  is the code the wrapper has recorded. For a handler body that is a sequence of calls
  with at most one call of \<^verbatim>\<open>WriteHeader\<close>, the recorded code is the code of that call,
  or 200 when there is none. When the handler panics, the statements of \<^verbatim>\<open>Logging\<close>
  after the handler do not run: no observation and no request event are added, and the
  only event is the one \<^verbatim>\<open>Recovery\<close> logs.
\<close>

theorem Logging_records_each_returned_request_once:
  "(h r (newResponseWriter w) s = Done (w', s') \<longrightarrow>
      Recovery (Logging h) r w s =
        Done (embedded w',
          s'\<lparr>httpRequestDuration :=
                httpRequestDuration s' @ [(Path r, Method r, now s' - now s)],
              logs :=
                logs s' @
                [\<lparr>lvl = requestLevel (statusCode w'),
                  flds =
                    [(''method'', FStr (Method r)), (''path'', FStr (Path r)),
                     (''status'', FInt (statusCode w')),
                     (''duration'', FDur (now s' - now s)),
                     (''remote_addr'', FStr (RemoteAddr r)),
                     (''user_agent'', FStr (UserAgent r))],
                  msg = ''HTTP request completed''\<rparr>]\<rparr>)) \<and>
   (run_calls calls (newResponseWriter w) s = Done (w', s') \<and>
    length (status_writes calls) \<le> 1 \<longrightarrow>
      statusCode w' = (case status_writes calls of [] \<Rightarrow> 200 | c # cs \<Rightarrow> c)) \<and>
   (h r (newResponseWriter w) s = Panic p (w', s') \<longrightarrow>
      (\<exists>w''. Recovery (Logging h) r w s =
         Done (w'',
           s'\<lparr>logs :=
                logs s' @
                [\<lparr>lvl = ErrorLevel,
                  flds = [(''panic'', FInterface p), (''path'', FStr (Path r)),
                          (''method'', FStr (Method r))],
                  msg = ''Recovered from panic''\<rparr>]\<rparr>)))"
proof (intro conjI impI)
  assume run: "h r (newResponseWriter w) s = Done (w', s')"
  have "Logging h r w s =
      Done (embedded w',
           emit (requestLevel (statusCode w'))
             [(''method'', FStr (Method r)), (''path'', FStr (Path r)),
              (''status'', FInt (statusCode w')), (''duration'', FDur (now s' - now s)),
              (''remote_addr'', FStr (RemoteAddr r)), (''user_agent'', FStr (UserAgent r))]
             ''HTTP request completed''
             (ObserveRequestDuration (Path r) (Method r) (now s' - now s) s'))"
    using run by (rule Logging_Done)
  then show "Recovery (Logging h) r w s =
      Done (embedded w',
        s'\<lparr>httpRequestDuration :=
              httpRequestDuration s' @ [(Path r, Method r, now s' - now s)],
            logs :=
              logs s' @
              [\<lparr>lvl = requestLevel (statusCode w'),
                flds =
                  [(''method'', FStr (Method r)), (''path'', FStr (Path r)),
                   (''status'', FInt (statusCode w')),
                   (''duration'', FDur (now s' - now s)),
                   (''remote_addr'', FStr (RemoteAddr r)),
                   (''user_agent'', FStr (UserAgent r))],
                msg = ''HTTP request completed''\<rparr>]\<rparr>)"
    by (simp add: Recovery_def emit_def ObserveRequestDuration_def)
next
  assume a: "run_calls calls (newResponseWriter w) s = Done (w', s') \<and>
    length (status_writes calls) \<le> 1"
  then have run: "run_calls calls (newResponseWriter w) s = Done (w', s')"
    and one: "length (status_writes calls) \<le> 1" by simp_all
  from run_calls_wrapper [OF run [unfolded newResponseWriter_def]]
  have "statusCode w' = (if status_writes calls = [] then 200 else last (status_writes calls))"
    by auto
  moreover have "(if status_writes calls = [] then 200 else last (status_writes calls)) =
      (case status_writes calls of [] \<Rightarrow> 200 | c # cs \<Rightarrow> c)"
    using one by (cases "status_writes calls") auto
  ultimately show "statusCode w' = (case status_writes calls of [] \<Rightarrow> 200 | c # cs \<Rightarrow> c)"
    by simp
next
  assume run: "h r (newResponseWriter w) s = Panic p (w', s')"
  have "Logging h r w s = Panic p (embedded w', s')"
    using run by (rule Logging_Panic)
  from Recovery_Panic [of "Logging h" r w s p "embedded w'" s', OF this]
  show "\<exists>w''. Recovery (Logging h) r w s =
      Done (w'',
        s'\<lparr>logs :=
             logs s' @
             [\<lparr>lvl = ErrorLevel,
               flds = [(''panic'', FInterface p), (''path'', FStr (Path r)),
                       (''method'', FStr (Method r))],
               msg = ''Recovered from panic''\<rparr>]\<rparr>)"
    by (auto simp: emit_def)
qed

text \<open>
  A body that answers 404 and returns, and a body that panics, on a fresh connection in
  a process that has served nothing yet.
\<close>

theorem Logging_records_each_returned_request_once_witness:
  "Recovery (Logging (\<lambda>r. run_calls [CallWriteHeader 404, CallWrite ''not here''])) probe
     (conn new_response) idle =
     Done (conn (new_response\<lparr>wroteHeader := True, status := 404, body := ''not here''\<rparr>),
       idle\<lparr>httpRequestDuration := [(''/'', ''GET'', 0)],
            logs :=
              [\<lparr>lvl = WarnLevel,
                flds =
                  [(''method'', FStr ''GET''), (''path'', FStr ''/''), (''status'', FInt 404),
                   (''duration'', FDur 0), (''remote_addr'', FStr ''10.0.0.9:40112''),
                   (''user_agent'', FStr ''curl/8.5.0'')],
                msg = ''HTTP request completed''\<rparr>]\<rparr>) \<and>
   (\<exists>w''. Recovery (Logging (\<lambda>r. run_calls [RaisePanic ''nil map''])) probe
            (conn new_response) idle =
          Done (w'',
            idle\<lparr>logs :=
                   [\<lparr>lvl = ErrorLevel,
                     flds = [(''panic'', FInterface ''nil map''), (''path'', FStr ''/''),
                             (''method'', FStr ''GET'')],
                     msg = ''Recovered from panic''\<rparr>]\<rparr>))"
proof -
  let ?ok = "[CallWriteHeader 404, CallWrite ''not here'']"
  let ?bad = "[RaisePanic ''nil map'']"
  let ?done = "responseWriter
      (conn (new_response\<lparr>wroteHeader := True, status := 404, body := ''not here''\<rparr>)) 404"
  have r1: "run_calls ?ok (newResponseWriter (conn new_response)) idle = Done (?done, idle)"
    by (simp add: newResponseWriter_def response_WriteHeader_def response_Write_def
        bodyAllowedForStatus_def new_response_def)
  have r2: "run_calls ?bad (newResponseWriter (conn new_response)) idle =
      Panic ''nil map'' (newResponseWriter (conn new_response), idle)"
    by simp
  have one: "length (status_writes ?ok) \<le> 1" by simp
  from Logging_records_each_returned_request_once
    [of "\<lambda>r. run_calls ?ok" probe "conn new_response" idle ?done idle ?ok]
  have a: "Recovery (Logging (\<lambda>r. run_calls ?ok)) probe (conn new_response) idle =
     Done (conn (new_response\<lparr>wroteHeader := True, status := 404, body := ''not here''\<rparr>),
       idle\<lparr>httpRequestDuration := [(''/'', ''GET'', 0)],
            logs :=
              [\<lparr>lvl = WarnLevel,
                flds =
                  [(''method'', FStr ''GET''), (''path'', FStr ''/''), (''status'', FInt 404),
                   (''duration'', FDur 0), (''remote_addr'', FStr ''10.0.0.9:40112''),
                   (''user_agent'', FStr ''curl/8.5.0'')],
                msg = ''HTTP request completed''\<rparr>]\<rparr>)"
    using r1 one by (simp add: probe_def idle_def requestLevel_def)
  from Logging_records_each_returned_request_once
    [of "\<lambda>r. run_calls ?bad" probe "conn new_response" idle
      "newResponseWriter (conn new_response)" idle ?bad "''nil map''"]
  have b: "\<exists>w''. Recovery (Logging (\<lambda>r. run_calls ?bad)) probe (conn new_response) idle =
          Done (w'',
            idle\<lparr>logs :=
                   [\<lparr>lvl = ErrorLevel,
                     flds = [(''panic'', FInterface ''nil map''), (''path'', FStr ''/''),
                             (''method'', FStr ''GET'')],
                     msg = ''Recovered from panic''\<rparr>]\<rparr>)"
    using r2 by (simp add: probe_def idle_def)
  from a b show ?thesis by simp
qed

text \<open>
  C2 as the specification states it fails twice. A handler that panics leaves no
  duration observation and no "HTTP request completed" event. And a handler that calls
  \<^verbatim>\<open>WriteHeader\<close> with 201 and then with 500 sends 201 to the client, the first call,
  while the event carries 500, the last one.
\<close>

theorem panicking_request_is_not_observed:
  "(\<exists>w'' s''. Recovery (Logging (\<lambda>r. run_calls [RaisePanic ''nil map''])) probe
                 (conn new_response) idle = Done (w'', s'') \<and>
               httpRequestDuration s'' = [] \<and>
               filter (\<lambda>ev. msg ev = ''HTTP request completed'') (logs s'') = []) \<and>
   (\<exists>w'' s''. Recovery (Logging (\<lambda>r. run_calls [CallWriteHeader 201, CallWriteHeader 500]))
                 probe (conn new_response) idle = Done (w'', s'') \<and>
               status (connection w'') = 201 \<and>
               map (\<lambda>ev. map_of (flds ev) ''status'') (logs s'') = [Some (FInt 500)])"
  by (simp add: Recovery_def Logging_def newResponseWriter_def http_Error_def
      response_WriteHeader_def response_Write_def bodyAllowedForStatus_def new_response_def
      idle_def emit_def ObserveRequestDuration_def probe_def requestLevel_def)

section \<open>Panics stop at the recovery middleware\<close>

text \<open>
  C3. Whenever the chain inside \<^verbatim>\<open>Recovery\<close> panics, \<^verbatim>\<open>Recovery\<close> returns normally: it
  has logged one event at error level with the payload of the panic, the path and the
  method, and the response is committed. If nothing had been written when the panic
  was raised, the status is 500 and the body is the fixed JSON error text and a
  newline; otherwise the status already sent stays.
\<close>

theorem Recovery_contains_every_panic:
  assumes "next r w s = Panic p (w', s')"
  shows "\<exists>w''. Recovery next r w s =
           Done (w'', emit ErrorLevel
                        [(''panic'', FInterface p), (''path'', FStr (Path r)),
                         (''method'', FStr (Method r))]
                        ''Recovered from panic'' s') \<and>
         wroteHeader (connection w'') \<and>
         (if wroteHeader (connection w')
          then status (connection w'') = status (connection w')
          else status (connection w'') = 500 \<and>
               body (connection w'') = body (connection w') @ recoveredBody @ ''\<newline>'')"
  using assms by (rule Recovery_Panic)

text \<open>
  A home-page handler that counts the request and then panics, behind
  \<^verbatim>\<open>Recovery(Logging(...))\<close> as the router builds it.
\<close>

theorem Recovery_contains_every_panic_witness:
  \<open>\<exists>w''. Recovery (Logging (\<lambda>r. run_calls [Track ''/'' ''GET'', RaisePanic ''index out of range''])) probe
            (conn new_response) idle =
          Done (w'', \<lparr>logs = [\<lparr>lvl = ErrorLevel,
                               flds = [(''panic'', FInterface ''index out of range''),
                                       (''path'', FStr ''/''), (''method'', FStr ''GET'')],
                               msg = ''Recovered from panic''\<rparr>],
                      httpRequestsTotal = (\<lambda>_. 0)((''/'', ''GET'') := 1),
                      httpRequestDuration = [], now = 0, stressRuns = []\<rparr>) \<and>
          status (connection w'') = 500 \<and>
          body (connection w'') = ''{"status":"error","message":"Internal server error"}\<newline>''\<close>
proof -
  let ?h = "\<lambda>r. run_calls [Track ''/'' ''GET'', RaisePanic ''index out of range'']"
  have inner: "Logging ?h probe (conn new_response) idle =
      Panic ''index out of range'' (conn new_response, TrackRequest ''/'' ''GET'' idle)"
    by (simp add: Logging_def newResponseWriter_def)
  have fresh: "\<not> wroteHeader (connection (conn new_response))"
    by (simp add: new_response_def)
  from Recovery_contains_every_panic
      [of "Logging ?h" probe "conn new_response" idle "''index out of range''"
        "conn new_response" "TrackRequest ''/'' ''GET'' idle", OF inner] fresh
  show ?thesis
    by (auto simp: emit_def TrackRequest_def idle_def probe_def new_response_def
        recoveredBody_def)
qed

section \<open>The worker ceiling\<close>




section \<open>Parameters that do not parse\<close>




section \<open>A worker count below one\<close>

text \<open>
  C7, as the code has it. A request whose \<^verbatim>\<open>workers\<close> parameter parses to zero or less
  is always rejected: on a fresh connection the handler answers with status 400 and
  makes no load run. The failure is the one for the field \<^verbatim>\<open>workers\<close>, with the message
  "workers must be between 1 and" followed by twice the number of cores, when the
  duration of the request passes validation; when the duration is out of range as
  well, it is the failure for the field \<^verbatim>\<open>duration\<close>, which is checked first.
\<close>

theorem workers_below_one_are_rejected:
  assumes "Query_Get r ''workers'' = ws" and "ws \<noteq> []" and "Atoi ws = Some n" and "n \<le> 0"
    and "\<not> wroteHeader (connection w)"
  shows "parseAndValidateStressRequest e r =
           Inl (if 1 \<le> parsed_durationSeconds e r \<and> parsed_durationSeconds e r \<le> 30
                then \<lparr>Field = ''workers'',
                      Problem = ''workers must be between 1 and '' @ Itoa (NumCPU e * 2)\<rparr>
                else \<lparr>Field = ''duration'',
                      Problem = ''duration must be between 1s and 30s''\<rparr>) \<and>
         (\<exists>w' s'. StressHandler e r w s = Done (w', s') \<and>
            status (connection w') = 400 \<and>
            body (connection w') =
              body (connection w) @
              (case Marshal e
                      (ResponseData
                         (Error
                            (if 1 \<le> parsed_durationSeconds e r \<and>
                                parsed_durationSeconds e r \<le> 30
                             then ''workers must be between 1 and '' @ Itoa (NumCPU e * 2)
                             else ''duration must be between 1s and 30s''))) of
                 Some b \<Rightarrow> b | None \<Rightarrow> encodeFailedBody) @ ''\<newline>'' \<and>
            stressRuns s' = stressRuns s)"
proof -
  let ?err = "if 1 \<le> parsed_durationSeconds e r \<and> parsed_durationSeconds e r \<le> 30
              then \<lparr>Field = ''workers'',
                    Problem = ''workers must be between 1 and '' @ Itoa (NumCPU e * 2)\<rparr>
              else \<lparr>Field = ''duration'', Problem = ''duration must be between 1s and 30s''\<rparr>"
  have pw: "parsed_workers e r = n" using assms(1-3) by (rule parsed_workers_Some)
  have p: "parseAndValidateStressRequest e r = Inl ?err"
    using pw assms(4) by (simp add: parseAndValidate_cases)
  have msg: "Problem ?err =
      (if 1 \<le> parsed_durationSeconds e r \<and> parsed_durationSeconds e r \<le> 30
       then ''workers must be between 1 and '' @ Itoa (NumCPU e * 2)
       else ''duration must be between 1s and 30s'')"
    by simp
  from StressHandler_400 [OF p assms(5), of s] p show ?thesis
    unfolding msg by blast
qed

text \<open>
  The requests \<^verbatim>\<open>GET /stress?workers=-1\<close> and \<^verbatim>\<open>GET /stress?duration=0s&workers=0\<close> on
  the four-core host.
\<close>

theorem workers_below_one_are_rejected_witness:
  \<open>parseAndValidateStressRequest example_env (stress_request [(''workers'', ''-1'')]) =
     Inl \<lparr>Field = ''workers'', Problem = ''workers must be between 1 and 8''\<rparr> \<and>
   (\<exists>w' s'. StressHandler example_env (stress_request [(''workers'', ''-1'')])
               (conn new_response) idle = Done (w', s') \<and>
      status (connection w') = 400 \<and>
      body (connection w') =
        ''{"status":"error","message":"workers must be between 1 and 8"}\<newline>'' \<and>
      stressRuns s' = []) \<and>
   parseAndValidateStressRequest example_env
     (stress_request [(''duration'', ''0s''), (''workers'', ''0'')]) =
     Inl \<lparr>Field = ''duration'', Problem = ''duration must be between 1s and 30s''\<rparr>\<close>
proof -
  let ?r = "stress_request [(''workers'', ''-1'')]"
  let ?both = "stress_request [(''duration'', ''0s''), (''workers'', ''0'')]"
  have q: "Query_Get ?r ''workers'' = ''-1''" and q0: "Query_Get ?both ''workers'' = ''0''"
    by (simp_all add: Query_Get_def stress_request_def)
  have a: "Atoi ''-1'' = Some (- 1)" and a0: "Atoi ''0'' = Some 0"
    by (simp_all add: Atoi_def digit_value_def)
  have d: "parsed_durationSeconds example_env ?r = 2"
    by (simp add: parsed_durationSeconds_def Query_Get_def stress_request_def)
  have d0: "parsed_durationSeconds example_env ?both = 0"
    by (simp add: parsed_durationSeconds_def Query_Get_def stress_request_def example_env_def
        ParseDuration_examples_def whole_seconds_exact quo_def Second_def)
  have n: "NumCPU example_env = 4" by (simp add: example_env_def)
  have i: "Itoa 8 = ''8''" by (simp add: Itoa_def digits.simps)
  have fresh: "\<not> wroteHeader (connection (conn new_response))"
    by (simp add: new_response_def)
  have m: \<open>Marshal example_env (ResponseData (Error ''workers must be between 1 and 8'')) =
      Some ''{"status":"error","message":"workers must be between 1 and 8"}''\<close>
    by (simp add: example_env_def Marshal_examples_def Error_def)
  have one: \<open>parseAndValidateStressRequest example_env ?r =
       Inl \<lparr>Field = ''workers'', Problem = ''workers must be between 1 and 8''\<rparr> \<and>
     (\<exists>w' s'. StressHandler example_env ?r (conn new_response) idle = Done (w', s') \<and>
        status (connection w') = 400 \<and>
        body (connection w') =
          ''{"status":"error","message":"workers must be between 1 and 8"}\<newline>'' \<and>
        stressRuns s' = [])\<close>
    using workers_below_one_are_rejected
      [of ?r "''-1''" "- 1" "conn new_response" example_env idle] q a d n i fresh m
    by (simp add: idle_def new_response_def)
  have two: "parseAndValidateStressRequest example_env ?both =
      Inl \<lparr>Field = ''duration'', Problem = ''duration must be between 1s and 30s''\<rparr>"
    using workers_below_one_are_rejected
      [of ?both "''0''" 0 "conn new_response" example_env idle] q0 a0 d0 fresh
    by simp
  from one two show ?thesis by simp
qed

text \<open>
  C7 as the specification states it fails for \<^verbatim>\<open>GET /stress?duration=0s&workers=0\<close>:
  the parsed worker count is zero, yet the failure returned and the body of the 400
  response name the duration, not the workers.
\<close>

theorem zero_workers_with_zero_duration_reports_duration:
  \<open>Atoi ''0'' = Some 0 \<and>
   parseAndValidateStressRequest example_env
     (stress_request [(''duration'', ''0s''), (''workers'', ''0'')]) =
     Inl \<lparr>Field = ''duration'', Problem = ''duration must be between 1s and 30s''\<rparr> \<and>
   (\<exists>w' s'. StressHandler example_env
               (stress_request [(''duration'', ''0s''), (''workers'', ''0'')])
               (conn new_response) idle = Done (w', s') \<and>
      status (connection w') = 400 \<and>
      body (connection w') =
        ''{"status":"error","message":"duration must be between 1s and 30s"}\<newline>'')\<close>
proof -
  let ?both = "stress_request [(''duration'', ''0s''), (''workers'', ''0'')]"
  have a0: "Atoi ''0'' = Some 0" by (simp add: Atoi_def digit_value_def)
  have d0: "parsed_durationSeconds example_env ?both = 0"
    by (simp add: parsed_durationSeconds_def Query_Get_def stress_request_def example_env_def
        ParseDuration_examples_def whole_seconds_exact quo_def Second_def)
  have p: "parseAndValidateStressRequest example_env ?both =
      Inl \<lparr>Field = ''duration'', Problem = ''duration must be between 1s and 30s''\<rparr>"
    using d0 by (simp add: parseAndValidate_cases)
  have fresh: "\<not> wroteHeader (connection (conn new_response))"
    by (simp add: new_response_def)
  have m: \<open>Marshal example_env (ResponseData (Error ''duration must be between 1s and 30s'')) =
      Some ''{"status":"error","message":"duration must be between 1s and 30s"}''\<close>
    by (simp add: example_env_def Marshal_examples_def Error_def)
  from StressHandler_400 [OF p fresh, of idle] m
  have \<open>\<exists>w' s'. StressHandler example_env ?both (conn new_response) idle = Done (w', s') \<and>
      status (connection w') = 400 \<and>
      body (connection w') =
        ''{"status":"error","message":"duration must be between 1s and 30s"}\<newline>''\<close>
    by (auto simp: new_response_def)
  with a0 p show ?thesis by blast
qed

section \<open>The health check\<close>

text \<open>
  C8, evaluated. \<^verbatim>\<open>GET /health\<close> through the router leaves the request counter as it
  was, but the logging middleware, which the router applies to every route, hands the
  logger an event at info level for it, after the debug event of the handler; with the
  default level \<^verbatim>\<open>info\<close> that event is printed.
\<close>

theorem health_check_is_logged_at_info_level:
  "\<exists>h s'. setupRouter e metricsHandler health_request = Some h \<and>
     h health_request (conn new_response) s =
       Done (conn (new_response\<lparr>wroteHeader := True, status := 200, body := ''OK''\<rparr>), s') \<and>
     httpRequestsTotal s' = httpRequestsTotal s \<and>
     logs s' =
       logs s @
       [\<lparr>lvl = DebugLevel, flds = [(''path'', FStr ''/health'')],
         msg = ''Health check requested''\<rparr>,
        \<lparr>lvl = InfoLevel,
         flds =
           [(''method'', FStr ''GET''), (''path'', FStr ''/health''), (''status'', FInt 200),
            (''duration'', FDur 0), (''remote_addr'', FStr ''10.0.0.1:40000''),
            (''user_agent'', FStr ''kube-probe/1.29'')],
         msg = ''HTTP request completed''\<rparr>] \<and>
     printed InfoLevel (logs s') =
       printed InfoLevel (logs s) @
       [\<lparr>lvl = InfoLevel,
         flds =
           [(''method'', FStr ''GET''), (''path'', FStr ''/health''), (''status'', FInt 200),
            (''duration'', FDur 0), (''remote_addr'', FStr ''10.0.0.1:40000''),
            (''user_agent'', FStr ''kube-probe/1.29'')],
         msg = ''HTTP request completed''\<rparr>]"
  by (simp add: setupRouter_def route_def health_request_def Recovery_def Logging_def
      HealthHandler_def newResponseWriter_def response_WriteHeader_def response_Write_def
      bodyAllowedForStatus_def new_response_def emit_def ObserveRequestDuration_def
      requestLevel_def printed_def)

section \<open>Whole seconds\<close>

text \<open>
  C9, as the code has it. The duration that is validated is the \<^verbatim>\<open>float64\<close> number of
  seconds of the parsed one, with its fraction dropped. For a parsed duration of less
  than \<open>2 ^ 24\<close> seconds in either direction this is the duration cut to whole seconds
  toward zero; for every duration a 64-bit \<^verbatim>\<open>Duration\<close> can hold it is that number or
  the next one away from zero. So a parsed duration of less than one second in either
  direction is validated as 0 and rejected with "duration must be between 1s and 30s",
  which the handler sends with status 400; a parsed duration of \<open>2 ^ 24\<close> seconds or
  more in either direction is rejected with the same failure; and a parsed duration
  whose whole seconds lie between 1 and 30 is accepted with that many seconds when the
  worker count is at least 1.
\<close>

theorem parsed_duration_is_truncated_to_whole_seconds:
  assumes "Query_Get r ''duration'' = ds" and "ds \<noteq> []" and "ParseDuration e ds = Some d"
    and "- (2 ^ 63) \<le> d" and "d < 2 ^ 63"
  shows "parsed_durationSeconds e r = whole_seconds d \<and>
         (\<bar>d\<bar> < 2 ^ 24 * Second \<longrightarrow>
            whole_seconds d = quo d Second \<and>
            \<bar>whole_seconds d\<bar> * Second \<le> \<bar>d\<bar> \<and> \<bar>d\<bar> < (\<bar>whole_seconds d\<bar> + 1) * Second \<and>
            (if 0 \<le> d then 0 \<le> whole_seconds d else whole_seconds d \<le> 0)) \<and>
         (if 0 \<le> d
          then quo d Second \<le> whole_seconds d \<and> whole_seconds d \<le> quo d Second + 1
          else quo d Second - 1 \<le> whole_seconds d \<and> whole_seconds d \<le> quo d Second) \<and>
         (\<bar>d\<bar> < Second \<longrightarrow>
            parseAndValidateStressRequest e r =
              Inl \<lparr>Field = ''duration'', Problem = ''duration must be between 1s and 30s''\<rparr> \<and>
            StressHandler e r w s =
              with_world
                (emit WarnLevel
                   [(''error'', FErr ''duration must be between 1s and 30s''),
                    (''path'', FStr (Path r))]
                   ''Invalid stress request parameters''
                   (TrackRequest (Path r) (Method r) s))
                (SendJSON e w 400
                   (ResponseData (Error ''duration must be between 1s and 30s'')))) \<and>
         (2 ^ 24 * Second \<le> \<bar>d\<bar> \<longrightarrow>
            parseAndValidateStressRequest e r =
              Inl \<lparr>Field = ''duration'', Problem = ''duration must be between 1s and 30s''\<rparr>) \<and>
         (1 \<le> whole_seconds d \<and> whole_seconds d \<le> 30 \<and> 1 \<le> parsed_workers e r \<longrightarrow>
            parseAndValidateStressRequest e r =
              Inr \<lparr>DurationSeconds = whole_seconds d,
                   Workers = min (parsed_workers e r) (NumCPU e * 2)\<rparr>)"
proof -
  have pd: "parsed_durationSeconds e r = whole_seconds d"
    using assms(1-3) by (rule parsed_duration_Some)
  have ex: "whole_seconds d = quo d Second \<and>
      \<bar>whole_seconds d\<bar> * Second \<le> \<bar>d\<bar> \<and> \<bar>d\<bar> < (\<bar>whole_seconds d\<bar> + 1) * Second \<and>
      (if 0 \<le> d then 0 \<le> whole_seconds d else whole_seconds d \<le> 0)"
    if "\<bar>d\<bar> < 2 ^ 24 * Second"
    using whole_seconds_exact [OF that] whole_seconds_toward_zero [OF that] by (rule conjI)
  have one: "if 0 \<le> d
      then quo d Second \<le> whole_seconds d \<and> whole_seconds d \<le> quo d Second + 1
      else quo d Second - 1 \<le> whole_seconds d \<and> whole_seconds d \<le> quo d Second"
    using assms(4,5) by (rule whole_seconds_within_one)
  have sub: "parseAndValidateStressRequest e r =
        Inl \<lparr>Field = ''duration'', Problem = ''duration must be between 1s and 30s''\<rparr> \<and>
      StressHandler e r w s =
        with_world
          (emit WarnLevel
             [(''error'', FErr ''duration must be between 1s and 30s''),
              (''path'', FStr (Path r))]
             ''Invalid stress request parameters''
             (TrackRequest (Path r) (Method r) s))
          (SendJSON e w 400
             (ResponseData (Error ''duration must be between 1s and 30s'')))"
    if "\<bar>d\<bar> < Second"
  proof -
    have "whole_seconds d = 0" using that by (rule whole_seconds_sub_second)
    then have p: "parseAndValidateStressRequest e r =
        Inl \<lparr>Field = ''duration'', Problem = ''duration must be between 1s and 30s''\<rparr>"
      using pd by (simp add: parseAndValidate_cases)
    from StressHandler_rejected [OF p, of w s] p show ?thesis by simp
  qed
  have long: "parseAndValidateStressRequest e r =
      Inl \<lparr>Field = ''duration'', Problem = ''duration must be between 1s and 30s''\<rparr>"
    if "2 ^ 24 * Second \<le> \<bar>d\<bar>"
    using whole_seconds_long [OF assms(4,5) that] pd by (simp add: parseAndValidate_cases)
  have acc: "parseAndValidateStressRequest e r =
      Inr \<lparr>DurationSeconds = whole_seconds d,
           Workers = min (parsed_workers e r) (NumCPU e * 2)\<rparr>"
    if "1 \<le> whole_seconds d \<and> whole_seconds d \<le> 30 \<and> 1 \<le> parsed_workers e r"
    using that pd by (simp add: parseAndValidate_cases)
  from pd ex one sub long acc show ?thesis by blast
qed

text \<open>
  The requests \<^verbatim>\<open>GET /stress?duration=500ms\<close>, \<^verbatim>\<open>GET /stress?duration=1500ms\<close> and
  \<^verbatim>\<open>GET /stress?duration=16777216999999999ns\<close> on the four-core host.
\<close>

theorem parsed_duration_is_truncated_to_whole_seconds_witness:
  "whole_seconds 500000000 = 0 \<and>
   parseAndValidateStressRequest example_env (stress_request [(''duration'', ''500ms'')]) =
     Inl \<lparr>Field = ''duration'', Problem = ''duration must be between 1s and 30s''\<rparr> \<and>
   (\<exists>w'. StressHandler example_env (stress_request [(''duration'', ''500ms'')])
            (conn new_response) idle =
          Done (w', emit WarnLevel
                [(''error'', FErr ''duration must be between 1s and 30s''),
                 (''path'', FStr ''/stress'')]
                ''Invalid stress request parameters'' (TrackRequest ''/stress'' ''GET'' idle)) \<and>
          status (connection w') = 400) \<and>
   whole_seconds 1500000000 = 1 \<and>
   parseAndValidateStressRequest example_env (stress_request [(''duration'', ''1500ms'')]) =
     Inr \<lparr>DurationSeconds = 1, Workers = 4\<rparr> \<and>
   parseAndValidateStressRequest example_env
     (stress_request [(''duration'', ''16777216999999999ns'')]) =
     Inl \<lparr>Field = ''duration'', Problem = ''duration must be between 1s and 30s''\<rparr>"
proof -
  let ?r1 = "stress_request [(''duration'', ''500ms'')]"
  let ?r2 = "stress_request [(''duration'', ''1500ms'')]"
  let ?r3 = "stress_request [(''duration'', ''16777216999999999ns'')]"
  have q1: "Query_Get ?r1 ''duration'' = ''500ms''"
    and q2: "Query_Get ?r2 ''duration'' = ''1500ms''"
    and q3: "Query_Get ?r3 ''duration'' = ''16777216999999999ns''"
    by (simp_all add: Query_Get_def stress_request_def)
  have p1: "ParseDuration example_env ''500ms'' = Some 500000000"
    and p2: "ParseDuration example_env ''1500ms'' = Some 1500000000"
    and p3: "ParseDuration example_env ''16777216999999999ns'' = Some 16777216999999999"
    by (simp_all add: example_env_def ParseDuration_examples_def)
  have t1: "whole_seconds 500000000 = 0" and t2: "whole_seconds 1500000000 = 1"
    by (simp_all add: whole_seconds_exact quo_def Second_def)
  have w2: "parsed_workers example_env ?r2 = 4"
    by (simp add: parsed_workers_def Query_Get_def stress_request_def example_env_def)
  have n: "NumCPU example_env = 4" by (simp add: example_env_def)
  have fresh: "\<not> wroteHeader (connection (conn new_response))"
    by (simp add: new_response_def)
  from SendJSON_fresh [OF fresh, of 400 example_env
      "ResponseData (Error ''duration must be between 1s and 30s'')"]
  obtain w' where send: "SendJSON example_env (conn new_response) 400
      (ResponseData (Error ''duration must be between 1s and 30s'')) = Done w'"
    "status (connection w') = 400" by auto
  from parsed_duration_is_truncated_to_whole_seconds
    [OF q1 _ p1, of "conn new_response" idle]
  have a: "parseAndValidateStressRequest example_env ?r1 =
      Inl \<lparr>Field = ''duration'', Problem = ''duration must be between 1s and 30s''\<rparr> \<and>
    (\<exists>w'. StressHandler example_env ?r1 (conn new_response) idle =
          Done (w', emit WarnLevel
                [(''error'', FErr ''duration must be between 1s and 30s''),
                 (''path'', FStr ''/stress'')]
                ''Invalid stress request parameters'' (TrackRequest ''/stress'' ''GET'' idle)) \<and>
          status (connection w') = 400)"
    using send by (simp add: Second_def stress_request_def)
  from parsed_duration_is_truncated_to_whole_seconds [OF q2 _ p2]
  have b: "parseAndValidateStressRequest example_env ?r2 = Inr \<lparr>DurationSeconds = 1, Workers = 4\<rparr>"
    using t2 w2 n by simp
  from parsed_duration_is_truncated_to_whole_seconds [OF q3 _ p3]
  have c: "parseAndValidateStressRequest example_env ?r3 =
      Inl \<lparr>Field = ''duration'', Problem = ''duration must be between 1s and 30s''\<rparr>"
    by (simp add: Second_def)
  from a b c t1 t2 show ?thesis by simp
qed

text \<open>
  C9 as the specification states it fails for
  \<^verbatim>\<open>GET /stress?duration=16777216999999999ns\<close>: the value parses to 16777216 seconds
  and 999999999 nanoseconds, which cut to whole seconds toward zero is 16777216, but
  the number that is validated is 16777217, which is more seconds than the duration
  has.
\<close>

theorem long_duration_is_rounded_away_from_zero:
  "ParseDuration example_env ''16777216999999999ns'' = Some 16777216999999999 \<and>
   quo 16777216999999999 Second = 16777216 \<and>
   parsed_durationSeconds example_env
     (stress_request [(''duration'', ''16777216999999999ns'')]) = 16777217 \<and>
   16777216999999999 < 16777217 * Second"
proof -
  let ?r = "stress_request [(''duration'', ''16777216999999999ns'')]"
  have q: "Query_Get ?r ''duration'' = ''16777216999999999ns''"
    by (simp add: Query_Get_def stress_request_def)
  have p: "ParseDuration example_env ''16777216999999999ns'' = Some 16777216999999999"
    by (simp add: example_env_def ParseDuration_examples_def)
  have "parsed_durationSeconds example_env ?r = whole_seconds 16777216999999999"
    using q _ p by (rule parsed_duration_Some) simp
  then have "parsed_durationSeconds example_env ?r = 16777217"
    by (simp only: long_duration_rounds_up)
  with p show ?thesis by (simp add: quo_def Second_def)
qed

section \<open>The status code is committed before encoding\<close>

text \<open>
  C10. On a writer nothing has been written to, and for a final status code that
  allows a body, \<^verbatim>\<open>SendJSON\<close> has set \<^verbatim>\<open>Content-Type\<close> to \<^verbatim>\<open>application/json\<close> and
  committed the code before it encodes. When encoding fails, the call of
  \<^verbatim>\<open>http.Error\<close> with 500 cannot replace what was committed: the client receives the
  original status and content type, and the fixed error text and a newline as body.
\<close>

theorem SendJSON_status_survives_encoding_failure:
  assumes "\<not> wroteHeader (connection w)" and "200 \<le> code" and "code \<le> 999"
    and "bodyAllowedForStatus code"
  shows "\<exists>w2. WriteHeader code (Header_Set ''Content-Type'' ''application/json'' w) = Done w2 \<and>
           wroteHeader (connection w2) \<and> status (connection w2) = code \<and>
           sentHeader (connection w2) ''Content-Type'' = Some ''application/json'' \<and>
           SendJSON e w code d =
             (case Encode e w2 d of
                (w3, True) \<Rightarrow> Done w3
              | (w3, False) \<Rightarrow> http_Error w3 encodeFailedBody 500) \<and>
           (Marshal e d = None \<longrightarrow>
              (\<exists>w'. SendJSON e w code d = Done w' \<and>
                 status (connection w') = code \<and>
                 sentHeader (connection w') ''Content-Type'' = Some ''application/json'' \<and>
                 body (connection w') = body (connection w) @ encodeFailedBody @ ''\<newline>''))"
proof -
  from SendJSON_commit [OF assms(1-3), of e d]
  obtain w2 where w2: "WriteHeader code (Header_Set ''Content-Type'' ''application/json'' w) = Done w2"
    and c2: "connection w2 =
       (connection w)\<lparr>handlerHeader := (handlerHeader (connection w))(''Content-Type'' \<mapsto> ''application/json''),
                       wroteHeader := True, status := code,
                       sentHeader := (handlerHeader (connection w))(''Content-Type'' \<mapsto> ''application/json'')\<rparr>"
    and send: "SendJSON e w code d =
       (case Encode e w2 d of
          (w3, True) \<Rightarrow> Done w3
        | (w3, False) \<Rightarrow> http_Error w3 encodeFailedBody 500)"
    by blast
  from SendJSON_fresh [OF assms(1-3), of e d]
  obtain w' where w': "SendJSON e w code d = Done w'" "status (connection w') = code"
    "sentHeader (connection w') ''Content-Type'' = Some ''application/json''"
    "body (connection w') =
       (if bodyAllowedForStatus code
        then body (connection w) @
             (case Marshal e d of Some b \<Rightarrow> b | None \<Rightarrow> encodeFailedBody) @ ''\<newline>''
        else body (connection w))"
    by blast
  have "Marshal e d = None \<longrightarrow>
      (\<exists>w'. SendJSON e w code d = Done w' \<and> status (connection w') = code \<and>
         sentHeader (connection w') ''Content-Type'' = Some ''application/json'' \<and>
         body (connection w') = body (connection w) @ encodeFailedBody @ ''\<newline>'')"
    using w' assms(4) by auto
  moreover have "wroteHeader (connection w2)" "status (connection w2) = code"
    "sentHeader (connection w2) ''Content-Type'' = Some ''application/json''"
    using c2 by simp_all
  ultimately show ?thesis using w2 send by (intro exI [of _ w2] conjI) assumption+
qed

text \<open>
  \<^verbatim>\<open>SendJSON\<close> with status 200 behind the logging wrapper, in the environment whose
  encoder fails: the client receives 200, while the wrapper has recorded 500.
\<close>

theorem SendJSON_status_survives_encoding_failure_witness:
  \<open>\<exists>w'. SendJSON failing_env (responseWriter (conn new_response) 200) 200
           (ResponseData (Success ''done'')) = Done w' \<and>
         status (connection w') = 200 \<and>
         sentHeader (connection w') ''Content-Type'' = Some ''application/json'' \<and>
         body (connection w') =
           ''{"status":"error","message":"Failed to encode response"}\<newline>'' \<and>
         statusCode w' = 500\<close>
proof -
  let ?w = "responseWriter (conn new_response) 200"
  have fresh: "\<not> wroteHeader (connection ?w)" by (simp add: new_response_def)
  have ok: "bodyAllowedForStatus 200" by (simp add: bodyAllowedForStatus_def)
  have none: "Marshal failing_env (ResponseData (Success ''done'')) = None"
    by (simp add: failing_env_def)
  from SendJSON_status_survives_encoding_failure [OF fresh _ _ ok, of failing_env
      "ResponseData (Success ''done'')"] none
  obtain w' where w': "SendJSON failing_env ?w 200 (ResponseData (Success ''done'')) = Done w'"
    "status (connection w') = 200"
    "sentHeader (connection w') ''Content-Type'' = Some ''application/json''"
    "body (connection w') = body (connection ?w) @ encodeFailedBody @ ''\<newline>''"
    by auto
  have "statusCode w' = 500"
    using w'(1) none
    by (simp add: SendJSON_def Encode_def http_Error_def response_WriteHeader_def
        response_Write_def bodyAllowedForStatus_def new_response_def split: prod.splits)
      (auto)
  then show ?thesis using w' by (simp add: new_response_def encodeFailedBody_def)
qed

end
